theory Spec2Isabelle
  imports Complex_Main "HOL-Library.Multiset" "HOL-Library.Log_Nat"
begin

section \<open>Request bodies and the validation schemas\<close>

text \<open>
  A request body is the value that \<open>express.json()\<close> hands to a handler. A number is
  a double, written as the rational it stands for; the schemas only compare numbers
  with zero, and the arithmetic of the store on them is given further down. An object is
  an association list read with \<open>map_of\<close>; a key that is missing reads as \<open>None\<close>, the
  model of JavaScript's \<open>undefined\<close>.
\<close>

datatype json =
    JNull
  | JBool bool
  | JNum rat
  | JStr string
  | JArr "json list"
  | JObj "(string \<times> json) list"

text \<open>One entry of \<open>ZodError.errors\<close>: the issue code and the field it is about.\<close>

datatype zod_issue = Issue (code: string) (path: string)

type_synonym 'a parsed = "zod_issue list + 'a"

definition issues_of :: "'a parsed \<Rightarrow> zod_issue list" where
  "issues_of r = (case r of Inl es \<Rightarrow> es | Inr _ \<Rightarrow> [])"

text \<open>\<open>z.string()\<close>: only a string is accepted; a missing key is an \<open>invalid_type\<close> issue.\<close>

definition z_string :: "string \<Rightarrow> json option \<Rightarrow> string parsed" where
  "z_string p v = (case v of Some (JStr s) \<Rightarrow> Inr s | _ \<Rightarrow> Inl [Issue ''invalid_type'' p])"

text \<open>\<open>z.string().min(1)\<close>\<close>

definition z_string_min1 :: "string \<Rightarrow> json option \<Rightarrow> string parsed" where
  "z_string_min1 p v =
     (case z_string p v of
        Inl es \<Rightarrow> Inl es
      | Inr s \<Rightarrow> if length s < 1 then Inl [Issue ''too_small'' p] else Inr s)"

text \<open>\<open>z.number().positive()\<close>\<close>

definition z_number_positive :: "string \<Rightarrow> json option \<Rightarrow> rat parsed" where
  "z_number_positive p v =
     (case v of
        Some (JNum a) \<Rightarrow> if a > 0 then Inr a else Inl [Issue ''too_small'' p]
      | _ \<Rightarrow> Inl [Issue ''invalid_type'' p])"

text \<open>\<open>.optional()\<close>: a missing key is accepted as it is, anything else goes through the
  inner schema (so \<open>null\<close> is refused).\<close>

definition z_optional :: "(json option \<Rightarrow> 'a parsed) \<Rightarrow> json option \<Rightarrow> 'a option parsed" where
  "z_optional inner v =
     (case v of
        None \<Rightarrow> Inr None
      | Some _ \<Rightarrow> (case inner v of Inl es \<Rightarrow> Inl es | Inr a \<Rightarrow> Inr (Some a)))"

text \<open>\<open>z.string().email()\<close>; the pattern that decides what an address is belongs to the
  validation library and is a parameter here.\<close>

definition z_string_email :: "(string \<Rightarrow> bool) \<Rightarrow> string \<Rightarrow> json option \<Rightarrow> string parsed" where
  "z_string_email is_email p v =
     (case z_string p v of
        Inl es \<Rightarrow> Inl es
      | Inr s \<Rightarrow> if is_email s then Inr s else Inl [Issue ''invalid_string'' p])"

datatype CampaignStatus = ACTIVE | COMPLETED | PAUSED

text \<open>\<open>z.enum(["ACTIVE", "COMPLETED", "PAUSED"]).default("ACTIVE")\<close>\<close>

definition z_status :: "string \<Rightarrow> json option \<Rightarrow> CampaignStatus parsed" where
  "z_status p v =
     (case v of
        None \<Rightarrow> Inr ACTIVE
      | Some (JStr s) \<Rightarrow>
          if s = ''ACTIVE'' then Inr ACTIVE
          else if s = ''COMPLETED'' then Inr COMPLETED
          else if s = ''PAUSED'' then Inr PAUSED
          else Inl [Issue ''invalid_enum_value'' p]
      | Some _ \<Rightarrow> Inl [Issue ''invalid_type'' p])"

subsection \<open>The six schemas of \<open>schemas/index.js\<close>\<close>

record auth_data =
  username :: string
  accessKey :: string

record expense_data =
  e_description :: string
  e_amount :: rat
  e_category :: string
  e_campaignId :: "string option"

record donation_data =
  d_amount :: rat
  d_donorId :: string
  d_campaignId :: "string option"

record campaign_data =
  c_name :: string
  c_description :: "string option"
  c_targetAmount :: "rat option"
  c_status :: CampaignStatus

record donor_data =
  dn_name :: string
  dn_email :: "string option"
  dn_phone :: "string option"
  dn_address :: "string option"

record beneficiary_data =
  b_name :: string
  b_description :: "string option"
  b_contactInfo :: "string option"

text \<open>
  \<open>z.object({...}).parse(input)\<close>: anything but an object is one \<open>invalid_type\<close> issue at
  the root; otherwise every field of the shape is checked, unknown keys are dropped, and
  the issues of all fields are reported together.
\<close>

definition authSchema :: "json \<Rightarrow> auth_data parsed" where
  "authSchema input =
     (case input of
        JObj kv \<Rightarrow>
          (let u = z_string_min1 ''username'' (map_of kv ''username'');
               k = z_string_min1 ''accessKey'' (map_of kv ''accessKey'')
           in case (u, k) of
                (Inr u', Inr k') \<Rightarrow> Inr \<lparr>username = u', accessKey = k'\<rparr>
              | _ \<Rightarrow> Inl (issues_of u @ issues_of k))
      | _ \<Rightarrow> Inl [Issue ''invalid_type'' []])"

definition expenseSchema :: "json \<Rightarrow> expense_data parsed" where
  "expenseSchema input =
     (case input of
        JObj kv \<Rightarrow>
          (let d = z_string_min1 ''description'' (map_of kv ''description'');
               a = z_number_positive ''amount'' (map_of kv ''amount'');
               c = z_string_min1 ''category'' (map_of kv ''category'');
               ci = z_optional (z_string ''campaignId'') (map_of kv ''campaignId'')
           in case (d, a, c, ci) of
                (Inr d', Inr a', Inr c', Inr ci') \<Rightarrow>
                  Inr \<lparr>e_description = d', e_amount = a', e_category = c', e_campaignId = ci'\<rparr>
              | _ \<Rightarrow> Inl (issues_of d @ issues_of a @ issues_of c @ issues_of ci))
      | _ \<Rightarrow> Inl [Issue ''invalid_type'' []])"

definition donationSchema :: "json \<Rightarrow> donation_data parsed" where
  "donationSchema input =
     (case input of
        JObj kv \<Rightarrow>
          (let a = z_number_positive ''amount'' (map_of kv ''amount'');
               dn = z_string ''donorId'' (map_of kv ''donorId'');
               ci = z_optional (z_string ''campaignId'') (map_of kv ''campaignId'')
           in case (a, dn, ci) of
                (Inr a', Inr dn', Inr ci') \<Rightarrow>
                  Inr \<lparr>d_amount = a', d_donorId = dn', d_campaignId = ci'\<rparr>
              | _ \<Rightarrow> Inl (issues_of a @ issues_of dn @ issues_of ci))
      | _ \<Rightarrow> Inl [Issue ''invalid_type'' []])"

definition campaignSchema :: "json \<Rightarrow> campaign_data parsed" where
  "campaignSchema input =
     (case input of
        JObj kv \<Rightarrow>
          (let n = z_string_min1 ''name'' (map_of kv ''name'');
               d = z_optional (z_string ''description'') (map_of kv ''description'');
               t = z_optional (z_number_positive ''targetAmount'') (map_of kv ''targetAmount'');
               s = z_status ''status'' (map_of kv ''status'')
           in case (n, d, t, s) of
                (Inr n', Inr d', Inr t', Inr s') \<Rightarrow>
                  Inr \<lparr>c_name = n', c_description = d', c_targetAmount = t', c_status = s'\<rparr>
              | _ \<Rightarrow> Inl (issues_of n @ issues_of d @ issues_of t @ issues_of s))
      | _ \<Rightarrow> Inl [Issue ''invalid_type'' []])"

definition donorSchema :: "(string \<Rightarrow> bool) \<Rightarrow> json \<Rightarrow> donor_data parsed" where
  "donorSchema is_email input =
     (case input of
        JObj kv \<Rightarrow>
          (let n = z_string_min1 ''name'' (map_of kv ''name'');
               e = z_optional (z_string_email is_email ''email'') (map_of kv ''email'');
               p = z_optional (z_string ''phone'') (map_of kv ''phone'');
               a = z_optional (z_string ''address'') (map_of kv ''address'')
           in case (n, e, p, a) of
                (Inr n', Inr e', Inr p', Inr a') \<Rightarrow>
                  Inr \<lparr>dn_name = n', dn_email = e', dn_phone = p', dn_address = a'\<rparr>
              | _ \<Rightarrow> Inl (issues_of n @ issues_of e @ issues_of p @ issues_of a))
      | _ \<Rightarrow> Inl [Issue ''invalid_type'' []])"

definition beneficiarySchema :: "json \<Rightarrow> beneficiary_data parsed" where
  "beneficiarySchema input =
     (case input of
        JObj kv \<Rightarrow>
          (let n = z_string_min1 ''name'' (map_of kv ''name'');
               d = z_optional (z_string ''description'') (map_of kv ''description'');
               c = z_optional (z_string ''contactInfo'') (map_of kv ''contactInfo'')
           in case (n, d, c) of
                (Inr n', Inr d', Inr c') \<Rightarrow>
                  Inr \<lparr>b_name = n', b_description = d', b_contactInfo = c'\<rparr>
              | _ \<Rightarrow> Inl (issues_of n @ issues_of d @ issues_of c))
      | _ \<Rightarrow> Inl [Issue ''invalid_type'' []])"

section \<open>The persisted state\<close>

text \<open>
  Every table of the migration has the columns \<open>id\<close>, \<open>createdAt\<close> and \<open>updatedAt\<close>
  beside its own; a row is those three (the identifier is called \<open>ident\<close> here, since
  \<open>id\<close> is the identity function of HOL) and the entity's own columns as \<open>data\<close>.
  Timestamps are milliseconds since the Unix epoch. Rows of a table are kept in the
  order in which they were inserted.
\<close>

record 'a row =
  ident :: string
  createdAt :: nat
  updatedAt :: nat
  data :: 'a

record db =
  campaigns :: "campaign_data row list"
  donors :: "donor_data row list"
  beneficiaries :: "beneficiary_data row list"
  donations :: "donation_data row list"
  expenses :: "expense_data row list"

definition empty_db :: db where
  "empty_db = \<lparr>campaigns = [], donors = [], beneficiaries = [], donations = [], expenses = []\<rparr>"

definition has_id :: "'a row list \<Rightarrow> string \<Rightarrow> bool" where
  "has_id tbl i = (i \<in> set (map ident tbl))"

definition find_by_id :: "'a row list \<Rightarrow> string \<Rightarrow> 'a row option" where
  "find_by_id tbl i = find (\<lambda>r. ident r = i) tbl"

text \<open>A nullable foreign key column: \<open>NULL\<close> references nothing, a value must name a row.\<close>

definition ref_ok :: "'a row list \<Rightarrow> string option \<Rightarrow> bool" where
  "ref_ok tbl r = (case r of None \<Rightarrow> True | Some i \<Rightarrow> has_id tbl i)"

text \<open>
  The constraints of the migration: the five primary keys, and the three foreign keys
  \<open>donations_donorId_fkey\<close>, \<open>donations_campaignId_fkey\<close>, \<open>expenses_campaignId_fkey\<close>.
\<close>

definition pk_ok :: "db \<Rightarrow> bool" where
  "pk_ok s = (distinct (map ident (campaigns s)) \<and> distinct (map ident (donors s)) \<and>
     distinct (map ident (beneficiaries s)) \<and> distinct (map ident (donations s)) \<and>
     distinct (map ident (expenses s)))"

definition donor_fk :: "db \<Rightarrow> bool" where
  "donor_fk s = list_all (\<lambda>d. has_id (donors s) (d_donorId (data d))) (donations s)"

definition campaign_fk :: "db \<Rightarrow> bool" where
  "campaign_fk s =
     (list_all (\<lambda>d. ref_ok (campaigns s) (d_campaignId (data d))) (donations s) \<and>
      list_all (\<lambda>e. ref_ok (campaigns s) (e_campaignId (data e))) (expenses s))"

definition constraints_ok :: "db \<Rightarrow> bool" where
  "constraints_ok s = (pk_ok s \<and> donor_fk s \<and> campaign_fk s)"

subsection \<open>Inserting\<close>

text \<open>
  What a handler cannot decide itself comes from outside: the identifier the ORM
  generates for the new row and the clock. \<open>prisma.<table>.create\<close> stamps the row with
  both and inserts it; the store refuses a row whose foreign key names no row (P2003)
  or whose identifier is taken (P2002), and then nothing is inserted. A query can also
  fail with the store's \<open>value out of range\<close> error, when a sum overflows.
\<close>

record env =
  new_id :: string
  now :: nat

datatype prisma_error = P2002 | P2003 | ValueOutOfRange

definition new_row :: "env \<Rightarrow> 'a \<Rightarrow> 'a row" where
  "new_row ev d = \<lparr>ident = new_id ev, createdAt = now ev, updatedAt = now ev, data = d\<rparr>"

definition prisma_expense_create ::
  "env \<Rightarrow> expense_data \<Rightarrow> db \<Rightarrow> prisma_error + (expense_data row \<times> db)" where
  "prisma_expense_create ev d s =
     (if \<not> ref_ok (campaigns s) (e_campaignId d) then Inl P2003
      else if has_id (expenses s) (new_id ev) then Inl P2002
      else Inr (new_row ev d, s\<lparr>expenses := expenses s @ [new_row ev d]\<rparr>))"

definition prisma_donation_create ::
  "env \<Rightarrow> donation_data \<Rightarrow> db \<Rightarrow> prisma_error + (donation_data row \<times> db)" where
  "prisma_donation_create ev d s =
     (if \<not> has_id (donors s) (d_donorId d) then Inl P2003
      else if \<not> ref_ok (campaigns s) (d_campaignId d) then Inl P2003
      else if has_id (donations s) (new_id ev) then Inl P2002
      else Inr (new_row ev d, s\<lparr>donations := donations s @ [new_row ev d]\<rparr>))"

definition prisma_campaign_create ::
  "env \<Rightarrow> campaign_data \<Rightarrow> db \<Rightarrow> prisma_error + (campaign_data row \<times> db)" where
  "prisma_campaign_create ev d s =
     (if has_id (campaigns s) (new_id ev) then Inl P2002
      else Inr (new_row ev d, s\<lparr>campaigns := campaigns s @ [new_row ev d]\<rparr>))"

definition prisma_donor_create ::
  "env \<Rightarrow> donor_data \<Rightarrow> db \<Rightarrow> prisma_error + (donor_data row \<times> db)" where
  "prisma_donor_create ev d s =
     (if has_id (donors s) (new_id ev) then Inl P2002
      else Inr (new_row ev d, s\<lparr>donors := donors s @ [new_row ev d]\<rparr>))"

definition prisma_beneficiary_create ::
  "env \<Rightarrow> beneficiary_data \<Rightarrow> db \<Rightarrow> prisma_error + (beneficiary_data row \<times> db)" where
  "prisma_beneficiary_create ev d s =
     (if has_id (beneficiaries s) (new_id ev) then Inl P2002
      else Inr (new_row ev d, s\<lparr>beneficiaries := beneficiaries s @ [new_row ev d]\<rparr>))"

subsection \<open>Deleting\<close>

text \<open>
  No handler deletes, but the migration fixes what a delete does to the rows that
  reference the deleted one: \<open>ON DELETE SET NULL\<close> for both \<open>campaignId\<close> columns,
  \<open>ON DELETE CASCADE\<close> for \<open>donations.donorId\<close>.
\<close>

definition clear_donation_campaign :: "string \<Rightarrow> donation_data row \<Rightarrow> donation_data row" where
  "clear_donation_campaign cid r =
     (if d_campaignId (data r) = Some cid then r\<lparr>data := (data r)\<lparr>d_campaignId := None\<rparr>\<rparr> else r)"

definition clear_expense_campaign :: "string \<Rightarrow> expense_data row \<Rightarrow> expense_data row" where
  "clear_expense_campaign cid r =
     (if e_campaignId (data r) = Some cid then r\<lparr>data := (data r)\<lparr>e_campaignId := None\<rparr>\<rparr> else r)"

definition delete_campaign :: "string \<Rightarrow> db \<Rightarrow> db" where
  "delete_campaign cid s =
     s\<lparr>campaigns := filter (\<lambda>c. ident c \<noteq> cid) (campaigns s),
       donations := map (clear_donation_campaign cid) (donations s),
       expenses := map (clear_expense_campaign cid) (expenses s)\<rparr>"

definition delete_donor :: "string \<Rightarrow> db \<Rightarrow> db" where
  "delete_donor did s =
     s\<lparr>donors := filter (\<lambda>d. ident d \<noteq> did) (donors s),
       donations := filter (\<lambda>d. d_donorId (data d) \<noteq> did) (donations s)\<rparr>"

subsection \<open>Reading\<close>

text \<open>
  \<open>orderBy: { createdAt: "desc" }\<close>: newest first. The query fixes no order among rows
  of equal creation time; the model keeps them in the order of the table.
\<close>

definition order_by_createdAt_desc :: "'a row list \<Rightarrow> 'a row list" where
  "order_by_createdAt_desc tbl = sort_key (\<lambda>r. - int (createdAt r)) tbl"

subsection \<open>Sums of double precision columns\<close>

text \<open>
  The amount columns are \<open>DOUBLE PRECISION\<close>. The store adds two doubles as IEEE 754
  does: the exact sum is rounded to the nearest double, to the one with the even
  significand when two are equally near, and a sum that rounds beyond the largest
  double is the error \<open>value out of range: overflow\<close>.

  \<open>ilog2 a\<close> is the exponent of the power of two at or below a positive \<open>a\<close>. A double
  with exponent \<open>e\<close> is a multiple of \<open>2 powi (e - 52)\<close>; the exponent is never below
  \<open>-1022\<close>, which gives the subnormal numbers their fixed spacing.
\<close>

definition ilog2 :: "rat \<Rightarrow> int" where
  "ilog2 a = (if 1 \<le> a then bitlen \<lfloor>a\<rfloor> - 1 else - bitlen (\<lceil>1 / a\<rceil> - 1))"

definition round_half_even :: "rat \<Rightarrow> int" where
  "round_half_even n =
     (let m = \<lfloor>n\<rfloor>; f = n - of_int m
      in if f < 1 / 2 then m else if 1 / 2 < f then m + 1 else if even m then m else m + 1)"

definition float8_limit :: rat where
  "float8_limit = 2 ^ 1024"

definition float8_round :: "rat \<Rightarrow> rat option" where
  "float8_round x =
     (if x = 0 then Some 0
      else (let a = \<bar>x\<bar>;
                e = max (- 1022) (ilog2 a);
                q = 2 powi (e - 52);
                r = of_int (round_half_even (a / q)) * q
            in if float8_limit \<le> r then None else Some (if x < 0 then - r else r)))"

text \<open>\<open>float8pl\<close>, the addition of the store.\<close>

definition float8_pl :: "rat \<Rightarrow> rat \<Rightarrow> prisma_error + rat" where
  "float8_pl a b =
     (case float8_round (a + b) of None \<Rightarrow> Inl ValueOutOfRange | Some r \<Rightarrow> Inr r)"

text \<open>
  \<open>aggregate({ _sum: { amount: true } })\<close> is \<open>SUM(amount)\<close>: \<open>null\<close> on no rows, and
  otherwise the first value with every further value added to it in turn, in the order
  of the table.
\<close>

fun float8_accum :: "rat \<Rightarrow> rat list \<Rightarrow> prisma_error + rat" where
  "float8_accum acc [] = Inr acc"
| "float8_accum acc (x # xs) =
     (case float8_pl acc x of Inl err \<Rightarrow> Inl err | Inr acc' \<Rightarrow> float8_accum acc' xs)"

text \<open>No addition of the sum rounds: every partial sum is a double already.\<close>

fun adds_exactly :: "rat \<Rightarrow> rat list \<Rightarrow> bool" where
  "adds_exactly acc [] = True"
| "adds_exactly acc (x # xs) =
     (float8_round (acc + x) = Some (acc + x) \<and> adds_exactly (acc + x) xs)"

definition aggregate_sum :: "rat list \<Rightarrow> prisma_error + rat option" where
  "aggregate_sum xs =
     (case xs of
        [] \<Rightarrow> Inr None
      | x # rest \<Rightarrow>
          (case float8_accum x rest of Inl err \<Rightarrow> Inl err | Inr v \<Rightarrow> Inr (Some v)))"

text \<open>The rows that \<open>include\<close> adds to a result.\<close>

record expense_incl =
  expense :: "expense_data row"
  expense_campaign :: "campaign_data row option"

record donation_incl =
  donation :: "donation_data row"
  donation_donor :: "donor_data row option"
  donation_campaign :: "campaign_data row option"

record campaign_incl =
  campaign :: "campaign_data row"
  count_donations :: nat
  count_expenses :: nat

record donor_incl =
  donor :: "donor_data row"
  donor_count_donations :: nat

definition related :: "'a row list \<Rightarrow> string option \<Rightarrow> 'a row option" where
  "related tbl r = (case r of None \<Rightarrow> None | Some i \<Rightarrow> find_by_id tbl i)"

definition include_campaign :: "db \<Rightarrow> expense_data row \<Rightarrow> expense_incl" where
  "include_campaign s e =
     \<lparr>expense = e, expense_campaign = related (campaigns s) (e_campaignId (data e))\<rparr>"

definition include_donor_campaign :: "db \<Rightarrow> donation_data row \<Rightarrow> donation_incl" where
  "include_donor_campaign s d =
     \<lparr>donation = d,
      donation_donor = find_by_id (donors s) (d_donorId (data d)),
      donation_campaign = related (campaigns s) (d_campaignId (data d))\<rparr>"

definition include_counts :: "db \<Rightarrow> campaign_data row \<Rightarrow> campaign_incl" where
  "include_counts s c =
     \<lparr>campaign = c,
      count_donations = length (filter (\<lambda>d. d_campaignId (data d) = Some (ident c)) (donations s)),
      count_expenses = length (filter (\<lambda>e. e_campaignId (data e) = Some (ident c)) (expenses s))\<rparr>"

definition include_donation_count :: "db \<Rightarrow> donor_data row \<Rightarrow> donor_incl" where
  "include_donation_count s d =
     \<lparr>donor = d,
      donor_count_donations = length (filter (\<lambda>x. d_donorId (data x) = ident d) (donations s))\<rparr>"

section \<open>Responses\<close>

text \<open>The dashboard's answer.\<close>

record stats =
  totalDonations :: rat
  totalExpenses :: rat
  activeCampaigns :: nat
  recentDonors :: "donation_incl list"

text \<open>
  The spreadsheet of the export: a worksheet has its columns and its rows, a row has one
  cell per column (\<open>None\<close> is an empty cell). Assigning \<open>worksheet.columns\<close> writes the
  headers as the first row; \<open>addRow\<close> of an object appends a row that holds, under each
  column, the object's value at the column's key.
\<close>

record column =
  header :: string
  key :: string
  width :: nat

datatype cell = Text string | Number rat

record worksheet =
  sheet_name :: string
  columns :: "column list"
  sheet_rows :: "cell option list list"

definition addWorksheet :: "string \<Rightarrow> worksheet" where
  "addWorksheet n = \<lparr>sheet_name = n, columns = [], sheet_rows = []\<rparr>"

definition set_columns :: "column list \<Rightarrow> worksheet \<Rightarrow> worksheet" where
  "set_columns cols ws = ws\<lparr>columns := cols, sheet_rows := [map (\<lambda>c. Some (Text (header c))) cols]\<rparr>"

definition addRow :: "worksheet \<Rightarrow> (string \<times> cell) list \<Rightarrow> worksheet" where
  "addRow ws obj = ws\<lparr>sheet_rows := sheet_rows ws @ [map (\<lambda>c. map_of obj (key c)) (columns ws)]\<rparr>"

text \<open>
  What a handler sends: \<open>{error, details}\<close>, \<open>{token, username}\<close>, the statistics, a created
  row, a list, the workbook with its file name, or the framework's own answer to a
  request that no route matches.
\<close>

datatype payload =
    Error string "zod_issue list option"
  | Token string string
  | Stats stats
  | Expense "expense_data row"
  | Expenses "expense_incl list"
  | Donation "donation_data row"
  | Donations "donation_incl list"
  | Campaign "campaign_data row"
  | Campaigns "campaign_incl list"
  | Donor "donor_data row"
  | Donors "donor_incl list"
  | Beneficiary "beneficiary_data row"
  | Beneficiaries "beneficiary_data row list"
  | Xlsx string worksheet
  | NoRoute

datatype response = Response (status: nat) (payload: payload)

section \<open>Outside collaborators\<close>

text \<open>
  The token library and the e-mail pattern are not part of the repository; the handlers
  take them as parameters. \<open>jwt_sign u secret t ttl\<close> is \<open>jwt.sign({username: u}, secret,
  {expiresIn: ttl})\<close> called when the clock shows \<open>t\<close> milliseconds, \<open>jwt_verify token
  secret t\<close> is \<open>jwt.verify\<close> at clock \<open>t\<close> with \<open>None\<close> for every error it reports, and
  \<open>secret_env\<close> is the environment variable \<open>JWT_SECRET\<close>.
\<close>

record jwt_payload =
  jp_username :: string
  jp_iat :: nat
  jp_exp :: nat

record deps =
  jwt_sign :: "string \<Rightarrow> string \<Rightarrow> nat \<Rightarrow> nat \<Rightarrow> string"
  jwt_verify :: "string \<Rightarrow> string \<Rightarrow> nat \<Rightarrow> jwt_payload option"
  is_email :: "string \<Rightarrow> bool"
  secret_env :: "string option"

text \<open>\<open>process.env.JWT_SECRET || "ray-of-hope-secret-key"\<close>\<close>

definition JWT_SECRET :: "deps \<Rightarrow> string" where
  "JWT_SECRET dp =
     (case secret_env dp of
        None \<Rightarrow> ''ray-of-hope-secret-key''
      | Some v \<Rightarrow> if v = [] then ''ray-of-hope-secret-key'' else v)"

text \<open>\<open>expiresIn: "24h"\<close>, in the seconds the token's \<open>exp\<close> counts.\<close>

definition expiresIn :: nat where
  "expiresIn = 24 * 60 * 60"

section \<open>The handlers of \<open>controllers/index.js\<close>\<close>

text \<open>
  A handler that only reads returns its response; one that writes returns the response
  and the state it leaves. A \<open>findMany\<close> and a \<open>count\<close> of the model cannot fail (a
  store that is down is outside of it), so the \<open>catch\<close> of a listing handler has no
  branch here. The \<open>catch\<close> of the dashboard is reached when one of its sums fails, and
  the \<open>catch\<close> of a creating handler is reached from the schema and from the store.
\<close>

definition validCredentials :: "(string \<times> string) list" where
  "validCredentials = [(''admin'', ''ray-hope-2024''), (''staff'', ''staff-access-2024'')]"

text \<open>
  What the handlers rely on from the token library, for the tokens that login issues: a
  token verifies under the secret it was signed with exactly while the clock, in whole
  seconds, is before its expiry, and then yields the signed payload; and a token is a
  non-empty string without a space (three base64url segments joined by dots).
\<close>

definition jwt_contract :: "deps \<Rightarrow> bool" where
  "jwt_contract dp =
     (\<forall>u \<in> set (map fst validCredentials). \<forall>t t'.
        jwt_verify dp (jwt_sign dp u (JWT_SECRET dp) t expiresIn) (JWT_SECRET dp) t' =
          (if t' div 1000 < t div 1000 + expiresIn
           then Some \<lparr>jp_username = u, jp_iat = t div 1000, jp_exp = t div 1000 + expiresIn\<rparr>
           else None) \<and>
        jwt_sign dp u (JWT_SECRET dp) t expiresIn \<noteq> [] \<and>
        CHR '' '' \<notin> set (jwt_sign dp u (JWT_SECRET dp) t expiresIn))"

definition login :: "deps \<Rightarrow> nat \<Rightarrow> json \<Rightarrow> response" where
  "login dp clock body =
     (case authSchema body of
        Inl es \<Rightarrow> Response 400 (Error ''Invalid login data'' (Some es))
      | Inr cred \<Rightarrow>
          (case find (\<lambda>u. fst u = username cred \<and> snd u = accessKey cred) validCredentials of
             None \<Rightarrow> Response 401 (Error ''Invalid credentials'' None)
           | Some user \<Rightarrow>
               Response 200
                 (Token (jwt_sign dp (username cred) (JWT_SECRET dp) clock expiresIn)
                    (username cred))))"

text \<open>\<open>x || 0\<close> on what an aggregate returns.\<close>

definition or_zero :: "rat option \<Rightarrow> rat" where
  "or_zero v = (case v of None \<Rightarrow> 0 | Some a \<Rightarrow> if a = 0 then 0 else a)"

text \<open>The fourth query of the dashboard: \<open>findMany\<close> with \<open>take: 5\<close>, newest first, donor
  and campaign included.\<close>

definition recent_donations :: "db \<Rightarrow> donation_incl list" where
  "recent_donations s =
     map (include_donor_campaign s) (take 5 (order_by_createdAt_desc (donations s)))"

text \<open>\<open>Promise.all\<close> rejects when one of the four queries does, and the handler then
  answers 500 and sends nothing else.\<close>

definition getDashboardStats :: "db \<Rightarrow> response" where
  "getDashboardStats s =
     (case aggregate_sum (map (\<lambda>d. d_amount (data d)) (donations s)) of
        Inl err \<Rightarrow> Response 500 (Error ''Failed to fetch dashboard statistics'' None)
      | Inr sumDonations \<Rightarrow>
          (case aggregate_sum (map (\<lambda>e. e_amount (data e)) (expenses s)) of
             Inl err \<Rightarrow> Response 500 (Error ''Failed to fetch dashboard statistics'' None)
           | Inr sumExpenses \<Rightarrow>
               Response 200 (Stats
                 \<lparr>totalDonations = or_zero sumDonations,
                  totalExpenses = or_zero sumExpenses,
                  activeCampaigns =
                    length (filter (\<lambda>c. c_status (data c) = ACTIVE) (campaigns s)),
                  recentDonors = recent_donations s\<rparr>)))"

definition getExpenses :: "db \<Rightarrow> response" where
  "getExpenses s =
     Response 200 (Expenses (map (include_campaign s) (order_by_createdAt_desc (expenses s))))"

definition createExpense :: "env \<Rightarrow> json \<Rightarrow> db \<Rightarrow> response \<times> db" where
  "createExpense ev body s =
     (case expenseSchema body of
        Inl es \<Rightarrow> (Response 400 (Error ''Invalid expense data'' (Some es)), s)
      | Inr d \<Rightarrow>
          (case prisma_expense_create ev d s of
             Inl err \<Rightarrow> (Response 400 (Error ''Invalid expense data'' None), s)
           | Inr (r, s') \<Rightarrow> (Response 201 (Expense r), s')))"

definition getDonations :: "db \<Rightarrow> response" where
  "getDonations s =
     Response 200
       (Donations (map (include_donor_campaign s) (order_by_createdAt_desc (donations s))))"

definition createDonation :: "env \<Rightarrow> json \<Rightarrow> db \<Rightarrow> response \<times> db" where
  "createDonation ev body s =
     (case donationSchema body of
        Inl es \<Rightarrow> (Response 400 (Error ''Invalid donation data'' (Some es)), s)
      | Inr d \<Rightarrow>
          (case prisma_donation_create ev d s of
             Inl err \<Rightarrow> (Response 400 (Error ''Invalid donation data'' None), s)
           | Inr (r, s') \<Rightarrow> (Response 201 (Donation r), s')))"

definition getCampaigns :: "db \<Rightarrow> response" where
  "getCampaigns s =
     Response 200 (Campaigns (map (include_counts s) (order_by_createdAt_desc (campaigns s))))"

definition createCampaign :: "env \<Rightarrow> json \<Rightarrow> db \<Rightarrow> response \<times> db" where
  "createCampaign ev body s =
     (case campaignSchema body of
        Inl es \<Rightarrow> (Response 400 (Error ''Invalid campaign data'' (Some es)), s)
      | Inr d \<Rightarrow>
          (case prisma_campaign_create ev d s of
             Inl err \<Rightarrow> (Response 400 (Error ''Invalid campaign data'' None), s)
           | Inr (r, s') \<Rightarrow> (Response 201 (Campaign r), s')))"

definition getDonors :: "db \<Rightarrow> response" where
  "getDonors s =
     Response 200 (Donors (map (include_donation_count s) (order_by_createdAt_desc (donors s))))"

definition createDonor :: "deps \<Rightarrow> env \<Rightarrow> json \<Rightarrow> db \<Rightarrow> response \<times> db" where
  "createDonor dp ev body s =
     (case donorSchema (is_email dp) body of
        Inl es \<Rightarrow> (Response 400 (Error ''Invalid donor data'' (Some es)), s)
      | Inr d \<Rightarrow>
          (case prisma_donor_create ev d s of
             Inl err \<Rightarrow> (Response 400 (Error ''Invalid donor data'' None), s)
           | Inr (r, s') \<Rightarrow> (Response 201 (Donor r), s')))"

definition getBeneficiaries :: "db \<Rightarrow> response" where
  "getBeneficiaries s = Response 200 (Beneficiaries (order_by_createdAt_desc (beneficiaries s)))"

definition createBeneficiary :: "env \<Rightarrow> json \<Rightarrow> db \<Rightarrow> response \<times> db" where
  "createBeneficiary ev body s =
     (case beneficiarySchema body of
        Inl es \<Rightarrow> (Response 400 (Error ''Invalid beneficiary data'' (Some es)), s)
      | Inr d \<Rightarrow>
          (case prisma_beneficiary_create ev d s of
             Inl err \<Rightarrow> (Response 400 (Error ''Invalid beneficiary data'' None), s)
           | Inr (r, s') \<Rightarrow> (Response 201 (Beneficiary r), s')))"

subsection \<open>The export\<close>

text \<open>
  \<open>Date.prototype.toISOString\<close> on a timestamp of milliseconds since the epoch: the
  proleptic Gregorian date in UTC, as \<open>YYYY-MM-DDTHH:mm:ss.sssZ\<close>, with the six-digit
  signed year beyond 9999.
\<close>

definition digit_char :: "nat \<Rightarrow> char" where
  "digit_char n = ''0123456789'' ! (n mod 10)"

fun decimal :: "nat \<Rightarrow> string" where
  "decimal n = (if n < 10 then [digit_char n] else decimal (n div 10) @ [digit_char n])"

declare decimal.simps [simp del]

definition pad :: "nat \<Rightarrow> string \<Rightarrow> string" where
  "pad w str = replicate (w - length str) CHR ''0'' @ str"

text \<open>Year, month and day of the day that lies \<open>n\<close> days after 1970-01-01.\<close>

definition civil_from_days :: "nat \<Rightarrow> nat \<times> nat \<times> nat" where
  "civil_from_days n =
     (let z = n + 719468;
          era = z div 146097;
          doe = z mod 146097;
          yoe = (doe - doe div 1460 + doe div 36524 - doe div 146096) div 365;
          doy = doe - (365 * yoe + yoe div 4 - yoe div 100);
          mp = (5 * doy + 2) div 153;
          d = doy - (153 * mp + 2) div 5 + 1;
          m = (if mp < 10 then mp + 3 else mp - 9);
          y = yoe + era * 400
      in (if m \<le> 2 then y + 1 else y, m, d))"

definition year_string :: "nat \<Rightarrow> string" where
  "year_string y = (if y \<le> 9999 then pad 4 (decimal y) else CHR ''+'' # pad 6 (decimal y))"

text \<open>The calendar date of a timestamp, \<open>YYYY-MM-DD\<close>.\<close>

definition calendar_date :: "nat \<Rightarrow> string" where
  "calendar_date t =
     (case civil_from_days (t div 86400000) of
        (y, m, d) \<Rightarrow> year_string y @ ''-'' @ pad 2 (decimal m) @ ''-'' @ pad 2 (decimal d))"

definition time_of_day :: "nat \<Rightarrow> string" where
  "time_of_day t =
     (let r = t mod 86400000
      in pad 2 (decimal (r div 3600000)) @ '':'' @ pad 2 (decimal (r div 60000 mod 60)) @ '':'' @
         pad 2 (decimal (r div 1000 mod 60)) @ ''.'' @ pad 3 (decimal (r mod 1000)))"

definition toISOString :: "nat \<Rightarrow> string" where
  "toISOString t = calendar_date t @ ''T'' @ time_of_day t @ ''Z''"

text \<open>\<open>str.split(sep)\<close> for a separator of one character, and \<open>xs[i]\<close>, which is
  \<open>undefined\<close> out of range.\<close>

fun js_split :: "char \<Rightarrow> string \<Rightarrow> string list" where
  "js_split sep [] = [[]]"
| "js_split sep (c # cs) =
     (if c = sep then [] # js_split sep cs
      else (case js_split sep cs of
              [] \<Rightarrow> [[c]]
            | x # xs \<Rightarrow> (c # x) # xs))"

definition js_index :: "'a list \<Rightarrow> nat \<Rightarrow> 'a option" where
  "js_index xs i = (if i < length xs then Some (xs ! i) else None)"

text \<open>\<open>expense.campaign?.name || "N/A"\<close>\<close>

definition campaign_label :: "campaign_data row option \<Rightarrow> string" where
  "campaign_label c =
     (case c of
        None \<Rightarrow> ''N/A''
      | Some r \<Rightarrow> if c_name (data r) = [] then ''N/A'' else c_name (data r))"

definition export_columns :: "column list" where
  "export_columns =
     [\<lparr>header = ''Date'', key = ''date'', width = 15\<rparr>,
      \<lparr>header = ''Description'', key = ''description'', width = 30\<rparr>,
      \<lparr>header = ''Amount'', key = ''amount'', width = 15\<rparr>,
      \<lparr>header = ''Category'', key = ''category'', width = 20\<rparr>,
      \<lparr>header = ''Campaign'', key = ''campaign'', width = 25\<rparr>]"

text \<open>The object that the loop of the export passes to \<open>addRow\<close> for one expense.\<close>

definition export_row :: "expense_incl \<Rightarrow> (string \<times> cell) list" where
  "export_row e =
     (case js_index (js_split CHR ''T'' (toISOString (createdAt (expense e)))) 0 of
        None \<Rightarrow> []
      | Some d \<Rightarrow> [(''date'', Text d)]) @
     [(''description'', Text (e_description (data (expense e)))),
      (''amount'', Number (e_amount (data (expense e)))),
      (''category'', Text (e_category (data (expense e)))),
      (''campaign'', Text (campaign_label (expense_campaign e)))]"

definition exportExpenses :: "db \<Rightarrow> response" where
  "exportExpenses s =
     (let worksheet = addWorksheet ''Expenses'';
          found = map (include_campaign s) (expenses s);
          worksheet = set_columns export_columns worksheet;
          worksheet = foldl (\<lambda>ws e. addRow ws (export_row e)) worksheet found
      in Response 200 (Xlsx ''expenses.xlsx'' worksheet))"

section \<open>The server of \<open>index.js\<close>\<close>

text \<open>
  The standalone server declares the same schemas and the same handlers inline. Its
  login, its reading handlers and its export are, statement for statement, those of
  \<open>controllers/index.js\<close>, and the model uses the definitions above for them. Its
  creating handlers differ in their \<open>catch\<close>: a \<open>ZodError\<close> is answered with 400, any
  other error with 500.
\<close>

definition app_post_expenses :: "env \<Rightarrow> json \<Rightarrow> db \<Rightarrow> response \<times> db" where
  "app_post_expenses ev body s =
     (case expenseSchema body of
        Inl es \<Rightarrow> (Response 400 (Error ''Invalid expense data'' (Some es)), s)
      | Inr d \<Rightarrow>
          (case prisma_expense_create ev d s of
             Inl err \<Rightarrow> (Response 500 (Error ''Failed to create expense'' None), s)
           | Inr (r, s') \<Rightarrow> (Response 201 (Expense r), s')))"

definition app_post_donations :: "env \<Rightarrow> json \<Rightarrow> db \<Rightarrow> response \<times> db" where
  "app_post_donations ev body s =
     (case donationSchema body of
        Inl es \<Rightarrow> (Response 400 (Error ''Invalid donation data'' (Some es)), s)
      | Inr d \<Rightarrow>
          (case prisma_donation_create ev d s of
             Inl err \<Rightarrow> (Response 500 (Error ''Failed to create donation'' None), s)
           | Inr (r, s') \<Rightarrow> (Response 201 (Donation r), s')))"

definition app_post_campaigns :: "env \<Rightarrow> json \<Rightarrow> db \<Rightarrow> response \<times> db" where
  "app_post_campaigns ev body s =
     (case campaignSchema body of
        Inl es \<Rightarrow> (Response 400 (Error ''Invalid campaign data'' (Some es)), s)
      | Inr d \<Rightarrow>
          (case prisma_campaign_create ev d s of
             Inl err \<Rightarrow> (Response 500 (Error ''Failed to create campaign'' None), s)
           | Inr (r, s') \<Rightarrow> (Response 201 (Campaign r), s')))"

definition app_post_donors :: "deps \<Rightarrow> env \<Rightarrow> json \<Rightarrow> db \<Rightarrow> response \<times> db" where
  "app_post_donors dp ev body s =
     (case donorSchema (is_email dp) body of
        Inl es \<Rightarrow> (Response 400 (Error ''Invalid donor data'' (Some es)), s)
      | Inr d \<Rightarrow>
          (case prisma_donor_create ev d s of
             Inl err \<Rightarrow> (Response 500 (Error ''Failed to create donor'' None), s)
           | Inr (r, s') \<Rightarrow> (Response 201 (Donor r), s')))"

definition app_post_beneficiaries :: "env \<Rightarrow> json \<Rightarrow> db \<Rightarrow> response \<times> db" where
  "app_post_beneficiaries ev body s =
     (case beneficiarySchema body of
        Inl es \<Rightarrow> (Response 400 (Error ''Invalid beneficiary data'' (Some es)), s)
      | Inr d \<Rightarrow>
          (case prisma_beneficiary_create ev d s of
             Inl err \<Rightarrow> (Response 500 (Error ''Failed to create beneficiary'' None), s)
           | Inr (r, s') \<Rightarrow> (Response 201 (Beneficiary r), s')))"

subsection \<open>The middleware\<close>

text \<open>
  \<open>authenticateToken\<close> either answers the request itself or calls \<open>next()\<close> with the
  verified payload stored in \<open>req.user\<close>. The header is \<open>None\<close> when the request has none.
  \<open>authHeader && authHeader.split(" ")[1]\<close> is the header itself when it is missing or
  empty, and \<open>!token\<close> holds for \<open>undefined\<close> and for the empty string.
\<close>

datatype middleware_result = Responded response | Next jwt_payload

definition header_token :: "string option \<Rightarrow> string option" where
  "header_token authHeader =
     (case authHeader of
        None \<Rightarrow> None
      | Some h \<Rightarrow> if h = [] then Some [] else js_index (js_split CHR '' '' h) 1)"

definition authenticateToken :: "deps \<Rightarrow> nat \<Rightarrow> string option \<Rightarrow> middleware_result" where
  "authenticateToken dp clock authHeader =
     (case header_token authHeader of
        None \<Rightarrow> Responded (Response 401 (Error ''Access token required'' None))
      | Some token \<Rightarrow>
          if token = [] then Responded (Response 401 (Error ''Access token required'' None))
          else (case jwt_verify dp token (JWT_SECRET dp) clock of
                  None \<Rightarrow> Responded (Response 403 (Error ''Invalid token'' None))
                | Some user \<Rightarrow> Next user))"

subsection \<open>Routing\<close>

datatype http_method = GET | POST | PUT | DELETE | PATCH

datatype endpoint =
    AuthLogin
  | DashboardStats
  | ExpensesList | ExpensesCreate
  | DonationsList | DonationsCreate
  | CampaignsList | CampaignsCreate
  | DonorsList | DonorsCreate
  | BeneficiariesList | BeneficiariesCreate
  | ExportExpenses

record request =
  req_method :: http_method
  req_path :: string
  authorization :: "string option"
  req_body :: json

text \<open>
  A route: the method, the path, whether \<open>authenticateToken\<close> stands before the handler,
  and the handler. The framework compares paths without regard to letter case and
  accepts one trailing slash; the first route that matches is taken.
\<close>

type_synonym route = "http_method \<times> string \<times> bool \<times> endpoint"

definition lower_char :: "char \<Rightarrow> char" where
  "lower_char c =
     (let n = (of_char c :: nat) in if 65 \<le> n \<and> n \<le> 90 then char_of (n + 32) else c)"

definition path_matches :: "string \<Rightarrow> string \<Rightarrow> bool" where
  "path_matches pattern p =
     (map lower_char p = map lower_char pattern \<or>
      map lower_char p = map lower_char pattern @ ''/'')"

definition find_route :: "route list \<Rightarrow> http_method \<Rightarrow> string \<Rightarrow> (bool \<times> endpoint) option" where
  "find_route routes m p =
     (case find (\<lambda>(m', pattern, _). m' = m \<and> path_matches pattern p) routes of
        None \<Rightarrow> None
      | Some (_, _, r) \<Rightarrow> Some r)"

text \<open>The routes of \<open>index.js\<close>, in the order of the file.\<close>

definition app_routes :: "route list" where
  "app_routes =
     [(POST, ''/api/auth/login'', False, AuthLogin),
      (GET, ''/api/dashboard/stats'', True, DashboardStats),
      (GET, ''/api/expenses'', True, ExpensesList),
      (POST, ''/api/expenses'', True, ExpensesCreate),
      (GET, ''/api/donations'', True, DonationsList),
      (POST, ''/api/donations'', True, DonationsCreate),
      (GET, ''/api/campaigns'', True, CampaignsList),
      (POST, ''/api/campaigns'', True, CampaignsCreate),
      (GET, ''/api/donors'', True, DonorsList),
      (POST, ''/api/donors'', True, DonorsCreate),
      (GET, ''/api/beneficiaries'', True, BeneficiariesList),
      (POST, ''/api/beneficiaries'', True, BeneficiariesCreate),
      (GET, ''/api/export/expenses'', True, ExportExpenses)]"

text \<open>The routes of \<open>routes/index.js\<close>, relative to where the router is mounted.\<close>

definition router_routes :: "route list" where
  "router_routes =
     [(POST, ''/auth/login'', False, AuthLogin),
      (GET, ''/dashboard/stats'', True, DashboardStats),
      (GET, ''/expenses'', True, ExpensesList),
      (POST, ''/expenses'', True, ExpensesCreate),
      (GET, ''/donations'', True, DonationsList),
      (POST, ''/donations'', True, DonationsCreate),
      (GET, ''/campaigns'', True, CampaignsList),
      (POST, ''/campaigns'', True, CampaignsCreate),
      (GET, ''/donors'', True, DonorsList),
      (POST, ''/donors'', True, DonorsCreate),
      (GET, ''/beneficiaries'', True, BeneficiariesList),
      (POST, ''/beneficiaries'', True, BeneficiariesCreate),
      (GET, ''/export/expenses'', True, ExportExpenses)]"

fun app_handler :: "endpoint \<Rightarrow> deps \<Rightarrow> env \<Rightarrow> json \<Rightarrow> db \<Rightarrow> response \<times> db" where
  "app_handler AuthLogin dp ev b s = (login dp (now ev) b, s)"
| "app_handler DashboardStats dp ev b s = (getDashboardStats s, s)"
| "app_handler ExpensesList dp ev b s = (getExpenses s, s)"
| "app_handler ExpensesCreate dp ev b s = app_post_expenses ev b s"
| "app_handler DonationsList dp ev b s = (getDonations s, s)"
| "app_handler DonationsCreate dp ev b s = app_post_donations ev b s"
| "app_handler CampaignsList dp ev b s = (getCampaigns s, s)"
| "app_handler CampaignsCreate dp ev b s = app_post_campaigns ev b s"
| "app_handler DonorsList dp ev b s = (getDonors s, s)"
| "app_handler DonorsCreate dp ev b s = app_post_donors dp ev b s"
| "app_handler BeneficiariesList dp ev b s = (getBeneficiaries s, s)"
| "app_handler BeneficiariesCreate dp ev b s = app_post_beneficiaries ev b s"
| "app_handler ExportExpenses dp ev b s = (exportExpenses s, s)"

fun router_handler :: "endpoint \<Rightarrow> deps \<Rightarrow> env \<Rightarrow> json \<Rightarrow> db \<Rightarrow> response \<times> db" where
  "router_handler AuthLogin dp ev b s = (login dp (now ev) b, s)"
| "router_handler DashboardStats dp ev b s = (getDashboardStats s, s)"
| "router_handler ExpensesList dp ev b s = (getExpenses s, s)"
| "router_handler ExpensesCreate dp ev b s = createExpense ev b s"
| "router_handler DonationsList dp ev b s = (getDonations s, s)"
| "router_handler DonationsCreate dp ev b s = createDonation ev b s"
| "router_handler CampaignsList dp ev b s = (getCampaigns s, s)"
| "router_handler CampaignsCreate dp ev b s = createCampaign ev b s"
| "router_handler DonorsList dp ev b s = (getDonors s, s)"
| "router_handler DonorsCreate dp ev b s = createDonor dp ev b s"
| "router_handler BeneficiariesList dp ev b s = (getBeneficiaries s, s)"
| "router_handler BeneficiariesCreate dp ev b s = createBeneficiary ev b s"
| "router_handler ExportExpenses dp ev b s = (exportExpenses s, s)"

text \<open>
  One request, from the route table to the response: a request that no route matches
  gets the framework's 404 and reaches no handler; a protected route runs the middleware
  first and its handler only after \<open>next()\<close>. The router takes its middleware from
  \<open>middleware/auth.js\<close>, which is a parameter of its model.
\<close>

definition serve ::
  "route list \<Rightarrow> (endpoint \<Rightarrow> deps \<Rightarrow> env \<Rightarrow> json \<Rightarrow> db \<Rightarrow> response \<times> db) \<Rightarrow>
   (deps \<Rightarrow> nat \<Rightarrow> string option \<Rightarrow> middleware_result) \<Rightarrow>
   deps \<Rightarrow> env \<Rightarrow> request \<Rightarrow> db \<Rightarrow> response \<times> db" where
  "serve routes handler mw dp ev req s =
     (case find_route routes (req_method req) (req_path req) of
        None \<Rightarrow> (Response 404 NoRoute, s)
      | Some (protected, ep) \<Rightarrow>
          if protected then
            (case mw dp (now ev) (authorization req) of
               Responded r \<Rightarrow> (r, s)
             | Next user \<Rightarrow> handler ep dp ev (req_body req) s)
          else handler ep dp ev (req_body req) s)"

definition app_request :: "deps \<Rightarrow> env \<Rightarrow> request \<Rightarrow> db \<Rightarrow> response \<times> db" where
  "app_request = serve app_routes app_handler authenticateToken"

definition router_request ::
  "(deps \<Rightarrow> nat \<Rightarrow> string option \<Rightarrow> middleware_result) \<Rightarrow>
   deps \<Rightarrow> env \<Rightarrow> request \<Rightarrow> db \<Rightarrow> response \<times> db" where
  "router_request mw = serve router_routes router_handler mw"

section \<open>The states the store can be in\<close>

text \<open>
  The store starts empty. It changes when a handler of either server runs, and when a
  campaign or a donor is deleted; no handler deletes, but the migration provides for it.
  A persisted state is one that is reached this way. Whether the middleware lets a
  request through to its handler does not matter here: a request that is turned away
  leaves the state as it was.
\<close>

inductive persisted :: "db \<Rightarrow> bool" where
  initial: "persisted empty_db"
| app_handled: "persisted s \<Longrightarrow> persisted (snd (app_handler ep dp ev b s))"
| router_handled: "persisted s \<Longrightarrow> persisted (snd (router_handler ep dp ev b s))"
| campaign_deleted: "persisted s \<Longrightarrow> persisted (delete_campaign cid s)"
| donor_deleted: "persisted s \<Longrightarrow> persisted (delete_donor did s)"

text \<open>What the campaign schema requires of a name.\<close>

definition names_ok :: "db \<Rightarrow> bool" where
  "names_ok s = list_all (\<lambda>c. c_name (data c) \<noteq> []) (campaigns s)"

section \<open>Sample states\<close>

text \<open>A small state and a request environment, used where a statement below is
  instantiated.\<close>

definition demo_env :: env where
  "demo_env = \<lparr>new_id = ''n1'', now = 1704067200000\<rparr>"

definition demo_campaign :: "campaign_data row" where
  "demo_campaign =
     \<lparr>ident = ''c1'', createdAt = 1000, updatedAt = 1000,
      data = \<lparr>c_name = ''School'', c_description = None, c_targetAmount = None,
              c_status = ACTIVE\<rparr>\<rparr>"

definition demo_donor :: "donor_data row" where
  "demo_donor =
     \<lparr>ident = ''d1'', createdAt = 2000, updatedAt = 2000,
      data = \<lparr>dn_name = ''Ann'', dn_email = None, dn_phone = None, dn_address = None\<rparr>\<rparr>"

definition demo_donation :: "string \<Rightarrow> nat \<Rightarrow> rat \<Rightarrow> string option \<Rightarrow> donation_data row" where
  "demo_donation i t a c =
     \<lparr>ident = i, createdAt = t, updatedAt = t,
      data = \<lparr>d_amount = a, d_donorId = ''d1'', d_campaignId = c\<rparr>\<rparr>"

definition demo_expense :: "string \<Rightarrow> nat \<Rightarrow> string \<Rightarrow> rat \<Rightarrow> string option \<Rightarrow> expense_data row" where
  "demo_expense i t d a c =
     \<lparr>ident = i, createdAt = t, updatedAt = t,
      data = \<lparr>e_description = d, e_amount = a, e_category = ''Food'', e_campaignId = c\<rparr>\<rparr>"

definition demo_db :: db where
  "demo_db =
     \<lparr>campaigns = [demo_campaign],
      donors = [demo_donor],
      beneficiaries = [],
      donations =
        [demo_donation ''g1'' 10 1 None, demo_donation ''g2'' 30 2 (Some ''c1''),
         demo_donation ''g3'' 20 3 None, demo_donation ''g4'' 60 4 None,
         demo_donation ''g5'' 50 5 None, demo_donation ''g6'' 40 6 None],
      expenses =
        [demo_expense ''e1'' 1704067200000 ''Rice'' 500 None,
         demo_expense ''e2'' 1709164800123 ''Books'' 20 (Some ''c1'')]\<rparr>"

text \<open>
  A stand-in for the token library: a token spells out the user, the issue time and the
  lifetime in unary, and the secret, separated by dots.
\<close>

definition demo_sign :: "string \<Rightarrow> string \<Rightarrow> nat \<Rightarrow> nat \<Rightarrow> string" where
  "demo_sign u k t ttl =
     u @ ''.'' @ replicate (t div 1000) CHR ''i'' @ ''.'' @ replicate ttl CHR ''e'' @ ''.'' @ k"

definition demo_verify :: "string \<Rightarrow> string \<Rightarrow> nat \<Rightarrow> jwt_payload option" where
  "demo_verify token k t =
     (case js_split CHR ''.'' token of
        [u, i, e, k'] \<Rightarrow>
          if k' = k \<and> t div 1000 < length i + length e
          then Some \<lparr>jp_username = u, jp_iat = length i, jp_exp = length i + length e\<rparr>
          else None
      | _ \<Rightarrow> None)"

definition demo_deps :: deps where
  "demo_deps =
     \<lparr>jwt_sign = demo_sign, jwt_verify = demo_verify,
      is_email = (\<lambda>a. CHR ''@'' \<in> set a), secret_env = None\<rparr>"

definition admin_login :: json where
  "admin_login = JObj [(''username'', JStr ''admin''), (''accessKey'', JStr ''ray-hope-2024'')]"

text \<open>A donation that satisfies the schema and names a donor that does not exist.\<close>

definition ghost_donation :: json where
  "ghost_donation = JObj [(''amount'', JNum 10), (''donorId'', JStr ''ghost'')]"

text \<open>One valid body for each entity; the donation names the donor and the campaign of the
  sample state.\<close>

definition expense_body :: json where
  "expense_body =
     JObj [(''description'', JStr ''Food''), (''amount'', JNum 500), (''category'', JStr ''Food'')]"

definition donation_body :: json where
  "donation_body =
     JObj [(''amount'', JNum 25), (''donorId'', JStr ''d1''), (''campaignId'', JStr ''c1'')]"

definition campaign_body :: json where
  "campaign_body = JObj [(''name'', JStr ''Clinic'')]"

definition donor_body :: json where
  "donor_body = JObj [(''name'', JStr ''Bob''), (''email'', JStr ''bob@example.org'')]"

definition beneficiary_body :: json where
  "beneficiary_body = JObj [(''name'', JStr ''Shelter'')]"

text \<open>
  The double \<open>2 ^ 1023\<close>, about \<open>8.99e307\<close>, a donation of that amount for the donor of the
  sample state, and the state after that donor and two such donations have been
  created.
\<close>

definition float8_huge :: rat where
  "float8_huge = 2 ^ 1023"

definition huge_donation :: json where
  "huge_donation = JObj [(''amount'', JNum float8_huge), (''donorId'', JStr ''d1'')]"

definition overflow_db :: db where
  "overflow_db =
     \<lparr>campaigns = [], donors = [demo_donor], beneficiaries = [],
      donations = [demo_donation ''h1'' 3000 float8_huge None,
                   demo_donation ''h2'' 4000 float8_huge None],
      expenses = []\<rparr>"

text \<open>The state after the same donor and two donations of the doubles nearest to 0.1 and
  to 0.2 have been created.\<close>

definition tenths_db :: db where
  "tenths_db =
     \<lparr>campaigns = [], donors = [demo_donor], beneficiaries = [],
      donations = [demo_donation ''t1'' 3000 (3602879701896397 / 2 ^ 55) None,
                   demo_donation ''t2'' 4000 (3602879701896397 / 2 ^ 54) None],
      expenses = []\<rparr>"


section \<open>Double precision sums\<close>

lemma ilog2_ge1:
  assumes "1 \<le> a"
  shows "2 powi (ilog2 a) \<le> a \<and> a < 2 powi (ilog2 a + 1)"
proof -
  let ?n = "\<lfloor>a\<rfloor>"
  have n: "0 < ?n" using assms by simp
  have e: "ilog2 a = bitlen ?n - 1" using assms by (simp add: ilog2_def)
  have b1: "1 \<le> bitlen ?n" using n bitlen_eq_zero_iff [of ?n] bitlen_nonneg [of ?n] by linarith
  from bitlen_bounds [OF n] have lo: "2 ^ nat (bitlen ?n - 1) \<le> ?n" and hi: "?n < 2 ^ nat (bitlen ?n)"
    by simp_all
  have "(2::rat) powi (ilog2 a) = of_int (2 ^ nat (bitlen ?n - 1))"
    using b1 by (simp add: e power_int_nonneg_exp)
  also have "\<dots> \<le> of_int ?n" using lo by (simp only: of_int_le_iff)
  also have "\<dots> \<le> a" by simp
  finally have L: "2 powi (ilog2 a) \<le> a" .
  have "?n + 1 \<le> 2 ^ nat (bitlen ?n)" using hi by simp
  then have "(of_int (?n + 1) :: rat) \<le> of_int (2 ^ nat (bitlen ?n))" by (simp only: of_int_le_iff)
  moreover have "a < of_int (?n + 1)" by simp linarith
  moreover have "(2::rat) powi (ilog2 a + 1) = of_int (2 ^ nat (bitlen ?n))"
    using b1 by (simp add: e power_int_nonneg_exp)
  ultimately have "a < 2 powi (ilog2 a + 1)" by simp
  with L show ?thesis by simp
qed

lemma ilog2_lt1:
  assumes "0 < a" and "a < 1"
  shows "2 powi (ilog2 a) \<le> a \<and> a < 2 powi (ilog2 a + 1)"
proof -
  let ?c = "\<lceil>1 / a\<rceil>"
  let ?b = "?c - 1"
  let ?k = "bitlen ?b"
  have inv: "1 < 1 / a" using assms by simp
  then have c: "2 \<le> ?c" by (smt (verit) ceiling_le_one ceiling_mono less_eq_real_def not_le)
  then have b: "0 < ?b" by simp
  have e: "ilog2 a = - ?k" using assms by (simp add: ilog2_def)
  have k1: "1 \<le> ?k" using b bitlen_eq_zero_iff [of ?b] bitlen_nonneg [of ?b] by linarith
  from bitlen_bounds [OF b] have lo: "2 ^ nat (?k - 1) \<le> ?b" and hi: "?b < 2 ^ nat ?k"
    by simp_all
  have "1 / a \<le> of_int ?c" by simp
  also have "(of_int ?c :: rat) \<le> of_int (2 ^ nat ?k)" using hi by (simp only: of_int_le_iff)
  finally have "1 / a \<le> 2 ^ nat ?k" by simp
  then have "1 \<le> 2 ^ nat ?k * a" using assms by (simp add: field_simps)
  then have L: "2 powi (ilog2 a) \<le> a"
    using k1 by (simp add: e power_int_minus power_int_nonneg_exp field_simps)
  have "(of_int (2 ^ nat (?k - 1)) :: rat) \<le> of_int ?b" using lo by (simp only: of_int_le_iff)
  also have "(of_int ?b :: rat) < 1 / a" by simp linarith
  finally have "2 ^ nat (?k - 1) < 1 / a" by simp
  then have "a * 2 ^ nat (?k - 1) < 1" using assms by (simp add: field_simps)
  then have u: "a < 1 / 2 ^ nat (?k - 1)" by (simp add: pos_less_divide_eq)
  have "(2::rat) powi (ilog2 a + 1) = 1 / 2 ^ nat (?k - 1)"
  proof -
    have "ilog2 a + 1 = - (?k - 1)" by (simp add: e)
    moreover have "(2::rat) powi (- (?k - 1)) = 1 / 2 powi (?k - 1)"
      by (rule power_int_minus_divide)
    moreover have "(2::rat) powi (?k - 1) = 2 ^ nat (?k - 1)"
      by (rule power_int_nonneg_exp) (use k1 in simp)
    ultimately show ?thesis by (simp only:)
  qed
  with u have "a < 2 powi (ilog2 a + 1)" by (simp only:)
  with L show ?thesis by simp
qed

lemma ilog2_bounds:
  "0 < a \<Longrightarrow> 2 powi (ilog2 a) \<le> a \<and> a < 2 powi (ilog2 a + 1)"
  using ilog2_ge1 [of a] ilog2_lt1 [of a] by (cases "1 \<le> a") auto

lemma two_powi_less_cancel: "(2::rat) powi m < 2 powi n \<Longrightarrow> m < n"
  using power_int_increasing [of n m "2::rat"] by (cases "m < n") auto

lemma ilog2_eqI:
  assumes "2 powi e \<le> a" and "a < 2 powi (e + 1)"
  shows "ilog2 a = e"
proof -
  have pos: "0 < a" using assms(1) by (smt (verit) zero_less_power_int less_le_trans zero_less_numeral)
  note b = ilog2_bounds [OF pos]
  have "(2::rat) powi e < 2 powi (ilog2 a + 1)" using assms(1) b by linarith
  then have 1: "e < ilog2 a + 1" by (rule two_powi_less_cancel)
  have "(2::rat) powi (ilog2 a) < 2 powi (e + 1)" using assms(2) b by linarith
  then have 2: "ilog2 a < e + 1" by (rule two_powi_less_cancel)
  from 1 2 show ?thesis by simp
qed

lemma float8_round_at:
  assumes "x \<noteq> 0" and "2 powi e \<le> \<bar>x\<bar>" and "\<bar>x\<bar> < 2 powi (e + 1)"
  shows "float8_round x =
     (let q = 2 powi (max (- 1022) e - 52);
          r = of_int (round_half_even (\<bar>x\<bar> / q)) * q
      in if float8_limit \<le> r then None else Some (if x < 0 then - r else r))"
proof -
  have i: "ilog2 \<bar>x\<bar> = e" using assms(2,3) by (rule ilog2_eqI)
  show ?thesis
    unfolding float8_round_def Let_def i using assms(1) by (simp only: if_False)
qed

lemma round_half_even_int [simp]: "round_half_even (of_int k) = k"
  by (simp add: round_half_even_def)

lemma round_half_even_ge: "\<lfloor>n\<rfloor> \<le> round_half_even n"
  by (simp add: round_half_even_def Let_def)

lemma float8_round_overflow:
  assumes "float8_limit \<le> \<bar>x\<bar>"
  shows "float8_round x = None"
proof -
  have lim: "float8_limit = 2 powi 1024"
    by (simp only: float8_limit_def power_int_numeral)
  have "(0::rat) < 2 powi 1024" by (rule zero_less_power_int) simp
  then have pos: "0 < \<bar>x\<bar>" using assms unfolding lim by linarith
  then have x: "x \<noteq> 0" by simp
  let ?e = "ilog2 \<bar>x\<bar>"
  note b = ilog2_bounds [OF pos]
  have "(2::rat) powi 1024 < 2 powi (?e + 1)" using assms b unfolding lim by linarith
  then have e: "1024 \<le> ?e" using two_powi_less_cancel [of 1024 "?e + 1"] by simp
  let ?q = "(2::rat) powi (?e - 52)"
  have q: "0 < ?q" by simp
  have m: "max (- 1022) ?e = ?e" using e by simp
  have "(2::rat) powi ?e = 2 powi 52 * ?q"
    by (simp add: power_int_diff)
  then have "2 ^ 52 * ?q \<le> \<bar>x\<bar>" using b by simp
  then have "(2 ^ 52 :: rat) \<le> \<bar>x\<bar> / ?q" using q by (simp add: field_simps)
  then have "(2 ^ 52 :: int) \<le> \<lfloor>\<bar>x\<bar> / ?q\<rfloor>" by (simp add: le_floor_iff)
  then have "(2 ^ 52 :: int) \<le> round_half_even (\<bar>x\<bar> / ?q)"
    using round_half_even_ge [of "\<bar>x\<bar> / ?q"] by linarith
  then have "(of_int (2 ^ 52) :: rat) \<le> of_int (round_half_even (\<bar>x\<bar> / ?q))"
    by (simp only: of_int_le_iff)
  then have "2 ^ 52 * ?q \<le> of_int (round_half_even (\<bar>x\<bar> / ?q)) * ?q"
    using q by simp
  moreover have "(2::rat) powi 1024 \<le> 2 powi ?e"
    using e by (intro power_int_increasing) simp_all
  moreover have "(2::rat) powi ?e = 2 ^ 52 * ?q"
    by (simp add: power_int_diff)
  ultimately have "float8_limit \<le> of_int (round_half_even (\<bar>x\<bar> / ?q)) * ?q"
    unfolding lim by linarith
  then show ?thesis
    unfolding float8_round_def Let_def m using x by (simp only: if_False if_True)
qed

lemma float8_round_int:
  assumes "\<bar>k\<bar> < 2 ^ 53"
  shows "float8_round (of_int k) = Some (of_int k)"
proof (cases "k = 0")
  case True
  then show ?thesis by (simp add: float8_round_def)
next
  case False
  let ?a = "\<bar>of_int k :: rat\<bar>"
  let ?e = "ilog2 ?a"
  have a1: "1 \<le> ?a" using False by (simp flip: of_int_abs)
  then have pos: "0 < ?a" by linarith
  note b = ilog2_bounds [OF pos]
  have "(2::rat) powi 0 < 2 powi (?e + 1)" using a1 b by simp
  then have lo: "0 \<le> ?e" using two_powi_less_cancel [of 0 "?e + 1"] by simp
  have "(of_int \<bar>k\<bar> :: rat) < of_int (2 ^ 53)" using assms by (simp only: of_int_less_iff)
  then have a53: "?a < 2 powi 53" by simp
  then have "(2::rat) powi ?e < 2 powi 53" using b by linarith
  then have hi: "?e \<le> 52" using two_powi_less_cancel [of ?e 53] by simp
  let ?n = "nat (52 - ?e)"
  have m: "max (- 1022) ?e = ?e" using lo by simp
  have q: "(2::rat) powi (?e - 52) = 1 / 2 ^ ?n"
  proof -
    have "?e - 52 = - (52 - ?e)" by simp
    moreover have "(2::rat) powi (- (52 - ?e)) = 1 / 2 powi (52 - ?e)"
      by (rule power_int_minus_divide)
    moreover have "(2::rat) powi (52 - ?e) = 2 ^ ?n"
      by (rule power_int_nonneg_exp) (use hi in simp)
    ultimately show ?thesis by (simp only:)
  qed
  have quot: "?a / (1 / 2 ^ ?n) = of_int (\<bar>k\<bar> * 2 ^ ?n)" by simp
  have r: "of_int (round_half_even (?a / (1 / 2 ^ ?n))) * (1 / 2 ^ ?n) = ?a"
    unfolding quot round_half_even_int by simp
  have "(2::rat) powi 53 \<le> 2 powi 1024" by (intro power_int_increasing) simp_all
  then have lim: "\<not> float8_limit \<le> ?a"
    using a53 by (simp add: float8_limit_def)
  have nz: "(of_int k :: rat) \<noteq> 0" using False by simp
  have "float8_round (of_int k) = Some (if (of_int k :: rat) < 0 then - ?a else ?a)"
    unfolding float8_round_def Let_def m q r using nz lim by (simp only: if_False)
  then show ?thesis by (simp add: abs_if)
qed

lemma float8_round_numeral:
  "(numeral k :: int) < 2 ^ 53 \<Longrightarrow> float8_round (numeral k) = Some (numeral k)"
  using float8_round_int [of "numeral k"] by simp

lemma round_half_even_split:
  assumes "0 \<le> f" and "f < 1"
  shows "round_half_even (of_int m + f) =
     (if f < 1 / 2 then m else if 1 / 2 < f then m + 1 else if even m then m else m + 1)"
proof -
  have "\<lfloor>of_int m + f\<rfloor> = m" using assms by linarith
  then show ?thesis by (simp add: round_half_even_def Let_def)
qed

text \<open>The doubles nearest to 0.1 and to 0.2 add up to the double that prints as
  \<open>0.30000000000000004\<close>.\<close>

lemma float8_pl_tenths:
  "float8_pl (3602879701896397 / 2 ^ 55) (3602879701896397 / 2 ^ 54) =
     Inr (5404319552844596 / 2 ^ 54)"
proof -
  let ?x = "3602879701896397 / 2 ^ 55 + 3602879701896397 / 2 ^ 54 :: rat"
  have x: "?x = 10808639105689191 / 2 ^ 55" by simp
  have q: "(2::rat) powi (max (- 1022) (- 2) - 52) = 1 / 2 ^ 54"
    by (simp add: power_int_minus_divide)
  have n: "\<bar>?x\<bar> / (1 / 2 ^ 54) = of_int 5404319552844595 + 1 / 2" by simp
  have r: "round_half_even (of_int 5404319552844595 + 1 / 2) = 5404319552844596"
    using round_half_even_split [of "1 / 2" 5404319552844595] by simp
  have lim: "\<not> float8_limit \<le> of_int 5404319552844596 * (1 / 2 ^ 54)"
    by (simp add: float8_limit_def)
  have "float8_round ?x = Some (of_int 5404319552844596 * (1 / 2 ^ 54))"
    using float8_round_at [of ?x "- 2"] lim unfolding Let_def q n r
    by (simp add: power_int_minus_divide)
  then show ?thesis by (simp add: float8_pl_def)
qed

lemma float8_pl_overflow: "float8_limit \<le> \<bar>a + b\<bar> \<Longrightarrow> float8_pl a b = Inl ValueOutOfRange"
  by (simp add: float8_pl_def float8_round_overflow)

lemma float8_accum_exact:
  "adds_exactly acc xs \<Longrightarrow> float8_accum acc xs = Inr (acc + sum_list xs)"
  by (induction xs arbitrary: acc) (simp_all add: float8_pl_def add.assoc)

lemma aggregate_sum_exact:
  "adds_exactly x xs \<Longrightarrow> aggregate_sum (x # xs) = Inr (Some (sum_list (x # xs)))"
  by (simp add: aggregate_sum_def float8_accum_exact)

lemma aggregate_sum_empty: "aggregate_sum [] = Inr None"
  by (simp add: aggregate_sum_def)


section \<open>Ordered reads\<close>

lemma sorted_desc: "sorted_wrt (\<lambda>a b. createdAt a \<ge> createdAt b) (order_by_createdAt_desc tbl)"
proof -
  have "sorted (map (\<lambda>r. - int (createdAt r)) (sort_key (\<lambda>r. - int (createdAt r)) tbl))"
    by (rule sorted_sort_key)
  then show ?thesis
    unfolding order_by_createdAt_desc_def by (simp add: sorted_wrt_map)
qed

lemma mset_desc: "mset (order_by_createdAt_desc tbl) = mset tbl"
  by (simp add: order_by_createdAt_desc_def)

lemma length_desc: "length (order_by_createdAt_desc tbl) = length tbl"
  by (simp add: order_by_createdAt_desc_def)

lemma set_desc: "set (order_by_createdAt_desc tbl) = set tbl"
  by (simp add: order_by_createdAt_desc_def)

text \<open>Rows of equal creation time stay in the order of the table.\<close>

lemma desc_ties:
  "filter (\<lambda>r. createdAt r = t) (order_by_createdAt_desc tbl) = filter (\<lambda>r. createdAt r = t) tbl"
proof -
  have "filter (\<lambda>r. - int (createdAt r) = - int t) (sort_key (\<lambda>r. - int (createdAt r)) tbl) =
      filter (\<lambda>r. - int (createdAt r) = - int t) tbl"
    by (rule sort_key_stable)
  then show ?thesis by (simp add: order_by_createdAt_desc_def)
qed

lemma find_by_id_has:
  "has_id tbl i \<Longrightarrow> \<exists>r. find_by_id tbl i = Some r \<and> ident r = i \<and> r \<in> set tbl"
  by (induction tbl) (auto simp: has_id_def find_by_id_def)

lemma find_by_id_Some:
  "find_by_id tbl i = Some r \<Longrightarrow> ident r = i \<and> r \<in> set tbl"
  by (induction tbl) (auto simp: find_by_id_def split: if_splits)

lemma take_rest_older:
  assumes "sorted_wrt (\<lambda>a b. createdAt a \<ge> createdAt b) xs"
  shows "\<forall>d \<in># mset xs - mset (take n xs). \<forall>r \<in> set (take n xs). createdAt d \<le> createdAt r"
proof -
  have rest: "mset xs - mset (take n xs) = mset (drop n xs)"
    using mset_append [of "take n xs" "drop n xs"] by (simp del: mset_append)
  have "sorted_wrt (\<lambda>a b. createdAt a \<ge> createdAt b) (take n xs @ drop n xs)"
    using assms by simp
  then have "\<forall>r \<in> set (take n xs). \<forall>d \<in> set (drop n xs). createdAt d \<le> createdAt r"
    unfolding sorted_wrt_append by blast
  then show ?thesis
    unfolding rest by simp
qed

section \<open>Create, then list\<close>

subsection \<open>What a schema accepts is what was submitted\<close>

lemma case4_Inr:
  "(case (a, b, c, d) of (Inr a', Inr b', Inr c', Inr d') \<Rightarrow> Inr (f a' b' c' d') | _ \<Rightarrow> Inl e) = Inr r
   \<longleftrightarrow> (\<exists>a' b' c' d'. a = Inr a' \<and> b = Inr b' \<and> c = Inr c' \<and> d = Inr d' \<and> r = f a' b' c' d')"
  by (cases a; cases b; cases c; cases d) auto

lemma case3_Inr:
  "(case (a, b, c) of (Inr a', Inr b', Inr c') \<Rightarrow> Inr (f a' b' c') | _ \<Rightarrow> Inl e) = Inr r
   \<longleftrightarrow> (\<exists>a' b' c'. a = Inr a' \<and> b = Inr b' \<and> c = Inr c' \<and> r = f a' b' c')"
  by (cases a; cases b; cases c) auto

lemma z_string_Inr: "z_string p v = Inr x \<Longrightarrow> v = Some (JStr x)"
  by (auto simp: z_string_def split: option.splits json.splits)

lemma z_string_min1_Inr: "z_string_min1 p v = Inr x \<Longrightarrow> v = Some (JStr x) \<and> x \<noteq> []"
  by (auto simp: z_string_min1_def split: sum.splits if_splits dest: z_string_Inr)

lemma z_number_positive_Inr: "z_number_positive p v = Inr a \<Longrightarrow> v = Some (JNum a) \<and> 0 < a"
  by (auto simp: z_number_positive_def split: option.splits json.splits if_splits)

lemma z_string_email_Inr: "z_string_email f p v = Inr x \<Longrightarrow> v = Some (JStr x) \<and> f x"
  by (auto simp: z_string_email_def split: sum.splits if_splits dest: z_string_Inr)

lemma z_optional_string_Inr: "z_optional (z_string p) v = Inr x \<Longrightarrow> v = map_option JStr x"
  by (auto simp: z_optional_def split: option.splits sum.splits dest: z_string_Inr)

lemma z_optional_number_Inr:
  "z_optional (z_number_positive p) v = Inr x \<Longrightarrow> v = map_option JNum x"
  by (auto simp: z_optional_def split: option.splits sum.splits dest: z_number_positive_Inr)

lemma z_optional_email_Inr:
  "z_optional (z_string_email f p) v = Inr x \<Longrightarrow> v = map_option JStr x"
  by (auto simp: z_optional_def split: option.splits sum.splits dest: z_string_email_Inr)

lemma z_status_Inr:
  "z_status p v = Inr st \<Longrightarrow>
     (case v of
        None \<Rightarrow> st = ACTIVE
      | Some j \<Rightarrow>
          j = JStr (case st of ACTIVE \<Rightarrow> ''ACTIVE'' | COMPLETED \<Rightarrow> ''COMPLETED''
                     | PAUSED \<Rightarrow> ''PAUSED''))"
  by (auto simp: z_status_def split: option.splits json.splits if_splits)

lemma expenseSchema_Inr:
  assumes "expenseSchema b = Inr d"
  shows "\<exists>kv. b = JObj kv \<and>
     map_of kv ''description'' = Some (JStr (e_description d)) \<and>
     map_of kv ''amount'' = Some (JNum (e_amount d)) \<and>
     map_of kv ''category'' = Some (JStr (e_category d)) \<and>
     map_of kv ''campaignId'' = map_option JStr (e_campaignId d)"
proof -
  from assms obtain kv where b: "b = JObj kv"
    by (auto simp: expenseSchema_def split: json.splits)
  from assms obtain x1 x2 x3 x4 where
    x1: "z_string_min1 ''description'' (map_of kv ''description'') = Inr x1" and
    x2: "z_number_positive ''amount'' (map_of kv ''amount'') = Inr x2" and
    x3: "z_string_min1 ''category'' (map_of kv ''category'') = Inr x3" and
    x4: "z_optional (z_string ''campaignId'') (map_of kv ''campaignId'') = Inr x4" and
    d: "d = \<lparr>e_description = x1, e_amount = x2, e_category = x3, e_campaignId = x4\<rparr>"
    unfolding b expenseSchema_def Let_def json.case case4_Inr by blast
  show ?thesis
    using b z_string_min1_Inr [OF x1] z_number_positive_Inr [OF x2] z_string_min1_Inr [OF x3] z_optional_string_Inr [OF x4]
    by (simp add: d)
qed

lemma donationSchema_Inr:
  assumes "donationSchema b = Inr d"
  shows "\<exists>kv. b = JObj kv \<and>
     map_of kv ''amount'' = Some (JNum (d_amount d)) \<and>
     map_of kv ''donorId'' = Some (JStr (d_donorId d)) \<and>
     map_of kv ''campaignId'' = map_option JStr (d_campaignId d)"
proof -
  from assms obtain kv where b: "b = JObj kv"
    by (auto simp: donationSchema_def split: json.splits)
  from assms obtain x1 x2 x3 where
    x1: "z_number_positive ''amount'' (map_of kv ''amount'') = Inr x1" and
    x2: "z_string ''donorId'' (map_of kv ''donorId'') = Inr x2" and
    x3: "z_optional (z_string ''campaignId'') (map_of kv ''campaignId'') = Inr x3" and
    d: "d = \<lparr>d_amount = x1, d_donorId = x2, d_campaignId = x3\<rparr>"
    unfolding b donationSchema_def Let_def json.case case3_Inr by blast
  show ?thesis
    using b z_number_positive_Inr [OF x1] z_string_Inr [OF x2] z_optional_string_Inr [OF x3]
    by (simp add: d)
qed

lemma campaignSchema_Inr:
  assumes "campaignSchema b = Inr d"
  shows "\<exists>kv. b = JObj kv \<and>
     map_of kv ''name'' = Some (JStr (c_name d)) \<and>
     map_of kv ''description'' = map_option JStr (c_description d) \<and>
     map_of kv ''targetAmount'' = map_option JNum (c_targetAmount d) \<and>
     (case map_of kv ''status'' of
        None \<Rightarrow> c_status d = ACTIVE
      | Some j \<Rightarrow>
          j = JStr (case c_status d of ACTIVE \<Rightarrow> ''ACTIVE'' | COMPLETED \<Rightarrow> ''COMPLETED''
                     | PAUSED \<Rightarrow> ''PAUSED''))"
proof -
  from assms obtain kv where b: "b = JObj kv"
    by (auto simp: campaignSchema_def split: json.splits)
  from assms obtain x1 x2 x3 x4 where
    x1: "z_string_min1 ''name'' (map_of kv ''name'') = Inr x1" and
    x2: "z_optional (z_string ''description'') (map_of kv ''description'') = Inr x2" and
    x3: "z_optional (z_number_positive ''targetAmount'') (map_of kv ''targetAmount'') = Inr x3" and
    x4: "z_status ''status'' (map_of kv ''status'') = Inr x4" and
    d: "d = \<lparr>c_name = x1, c_description = x2, c_targetAmount = x3, c_status = x4\<rparr>"
    unfolding b campaignSchema_def Let_def json.case case4_Inr by blast
  show ?thesis
    using b z_string_min1_Inr [OF x1] z_optional_string_Inr [OF x2]
      z_optional_number_Inr [OF x3] z_status_Inr [OF x4]
    by (auto simp: d split: option.splits)
qed

lemma donorSchema_Inr:
  assumes "donorSchema f b = Inr d"
  shows "\<exists>kv. b = JObj kv \<and>
     map_of kv ''name'' = Some (JStr (dn_name d)) \<and>
     map_of kv ''email'' = map_option JStr (dn_email d) \<and>
     map_of kv ''phone'' = map_option JStr (dn_phone d) \<and>
     map_of kv ''address'' = map_option JStr (dn_address d)"
proof -
  from assms obtain kv where b: "b = JObj kv"
    by (auto simp: donorSchema_def split: json.splits)
  from assms obtain x1 x2 x3 x4 where
    x1: "z_string_min1 ''name'' (map_of kv ''name'') = Inr x1" and
    x2: "z_optional (z_string_email f ''email'') (map_of kv ''email'') = Inr x2" and
    x3: "z_optional (z_string ''phone'') (map_of kv ''phone'') = Inr x3" and
    x4: "z_optional (z_string ''address'') (map_of kv ''address'') = Inr x4" and
    d: "d = \<lparr>dn_name = x1, dn_email = x2, dn_phone = x3, dn_address = x4\<rparr>"
    unfolding b donorSchema_def Let_def json.case case4_Inr by blast
  show ?thesis
    using b z_string_min1_Inr [OF x1] z_optional_email_Inr [OF x2] z_optional_string_Inr [OF x3] z_optional_string_Inr [OF x4]
    by (simp add: d)
qed

lemma beneficiarySchema_Inr:
  assumes "beneficiarySchema b = Inr d"
  shows "\<exists>kv. b = JObj kv \<and>
     map_of kv ''name'' = Some (JStr (b_name d)) \<and>
     map_of kv ''description'' = map_option JStr (b_description d) \<and>
     map_of kv ''contactInfo'' = map_option JStr (b_contactInfo d)"
proof -
  from assms obtain kv where b: "b = JObj kv"
    by (auto simp: beneficiarySchema_def split: json.splits)
  from assms obtain x1 x2 x3 where
    x1: "z_string_min1 ''name'' (map_of kv ''name'') = Inr x1" and
    x2: "z_optional (z_string ''description'') (map_of kv ''description'') = Inr x2" and
    x3: "z_optional (z_string ''contactInfo'') (map_of kv ''contactInfo'') = Inr x3" and
    d: "d = \<lparr>b_name = x1, b_description = x2, b_contactInfo = x3\<rparr>"
    unfolding b beneficiarySchema_def Let_def json.case case3_Inr by blast
  show ?thesis
    using b z_string_min1_Inr [OF x1] z_optional_string_Inr [OF x2] z_optional_string_Inr [OF x3]
    by (simp add: d)
qed



section \<open>What a create leaves behind\<close>

lemma createExpense_stored:
  assumes "expenseSchema b = Inr d" and "ref_ok (campaigns s) (e_campaignId d)"
    and "\<not> has_id (expenses s) (new_id ev)"
  shows "createExpense ev b s =
      (Response 201 (Expense (new_row ev d)), s\<lparr>expenses := expenses s @ [new_row ev d]\<rparr>)"
    and "app_post_expenses ev b s = createExpense ev b s"
  using assms
  by (simp_all add: createExpense_def app_post_expenses_def prisma_expense_create_def)

lemma createDonation_stored:
  assumes "donationSchema b = Inr d" and "has_id (donors s) (d_donorId d)"
    and "ref_ok (campaigns s) (d_campaignId d)" and "\<not> has_id (donations s) (new_id ev)"
  shows "createDonation ev b s =
      (Response 201 (Donation (new_row ev d)), s\<lparr>donations := donations s @ [new_row ev d]\<rparr>)"
    and "app_post_donations ev b s = createDonation ev b s"
  using assms
  by (simp_all add: createDonation_def app_post_donations_def prisma_donation_create_def)

lemma createCampaign_stored:
  assumes "campaignSchema b = Inr d" and "\<not> has_id (campaigns s) (new_id ev)"
  shows "createCampaign ev b s =
      (Response 201 (Campaign (new_row ev d)), s\<lparr>campaigns := campaigns s @ [new_row ev d]\<rparr>)"
    and "app_post_campaigns ev b s = createCampaign ev b s"
  using assms
  by (simp_all add: createCampaign_def app_post_campaigns_def prisma_campaign_create_def)

lemma createDonor_stored:
  assumes "donorSchema (is_email dp) b = Inr d" and "\<not> has_id (donors s) (new_id ev)"
  shows "createDonor dp ev b s =
      (Response 201 (Donor (new_row ev d)), s\<lparr>donors := donors s @ [new_row ev d]\<rparr>)"
    and "app_post_donors dp ev b s = createDonor dp ev b s"
  using assms
  by (simp_all add: createDonor_def app_post_donors_def prisma_donor_create_def)

lemma createBeneficiary_stored:
  assumes "beneficiarySchema b = Inr d" and "\<not> has_id (beneficiaries s) (new_id ev)"
  shows "createBeneficiary ev b s =
      (Response 201 (Beneficiary (new_row ev d)),
       s\<lparr>beneficiaries := beneficiaries s @ [new_row ev d]\<rparr>)"
    and "app_post_beneficiaries ev b s = createBeneficiary ev b s"
  using assms
  by (simp_all add: createBeneficiary_def app_post_beneficiaries_def
      prisma_beneficiary_create_def)

text \<open>A create either stores the row it answers with or leaves the state as it was.\<close>

lemma createExpense_cases:
  "snd (createExpense ev b s) = s \<and> snd (app_post_expenses ev b s) = s \<or>
   (\<exists>d. expenseSchema b = Inr d \<and> ref_ok (campaigns s) (e_campaignId d) \<and>
        \<not> has_id (expenses s) (new_id ev))"
  by (auto simp: createExpense_def app_post_expenses_def prisma_expense_create_def
      split: sum.splits)

lemma createDonation_cases:
  "snd (createDonation ev b s) = s \<and> snd (app_post_donations ev b s) = s \<or>
   (\<exists>d. donationSchema b = Inr d \<and> has_id (donors s) (d_donorId d) \<and>
        ref_ok (campaigns s) (d_campaignId d) \<and> \<not> has_id (donations s) (new_id ev))"
  by (auto simp: createDonation_def app_post_donations_def prisma_donation_create_def
      split: sum.splits)

lemma createCampaign_cases:
  "snd (createCampaign ev b s) = s \<and> snd (app_post_campaigns ev b s) = s \<or>
   (\<exists>d. campaignSchema b = Inr d \<and> \<not> has_id (campaigns s) (new_id ev))"
  by (auto simp: createCampaign_def app_post_campaigns_def prisma_campaign_create_def
      split: sum.splits)

lemma createDonor_cases:
  "snd (createDonor dp ev b s) = s \<and> snd (app_post_donors dp ev b s) = s \<or>
   (\<exists>d. donorSchema (is_email dp) b = Inr d \<and> \<not> has_id (donors s) (new_id ev))"
  by (auto simp: createDonor_def app_post_donors_def prisma_donor_create_def
      split: sum.splits)

lemma createBeneficiary_cases:
  "snd (createBeneficiary ev b s) = s \<and> snd (app_post_beneficiaries ev b s) = s \<or>
   (\<exists>d. beneficiarySchema b = Inr d \<and> \<not> has_id (beneficiaries s) (new_id ev))"
  by (auto simp: createBeneficiary_def app_post_beneficiaries_def prisma_beneficiary_create_def
      split: sum.splits)


section \<open>Persisted states keep the constraints\<close>

lemma campaignSchema_name: 
  assumes "campaignSchema b = Inr d"
  shows "c_name d \<noteq> []"
proof -
  from assms obtain kv where b: "b = JObj kv"
    by (auto simp: campaignSchema_def split: json.splits)
  from assms obtain x1 x2 x3 x4 where
    x1: "z_string_min1 ''name'' (map_of kv ''name'') = Inr x1" and
    d: "d = \<lparr>c_name = x1, c_description = x2, c_targetAmount = x3, c_status = x4\<rparr>"
    unfolding b campaignSchema_def Let_def json.case case4_Inr by blast
  show ?thesis
    using z_string_min1_Inr [OF x1] by (simp add: d)
qed

lemma empty_db_ok: "constraints_ok empty_db \<and> names_ok empty_db"
  by (simp add: constraints_ok_def pk_ok_def donor_fk_def campaign_fk_def names_ok_def
      empty_db_def)

lemma expense_added_ok:
  assumes "constraints_ok s \<and> names_ok s" and "ref_ok (campaigns s) (e_campaignId d)"
    and "\<not> has_id (expenses s) (new_id ev)"
  shows "constraints_ok (s\<lparr>expenses := expenses s @ [new_row ev d]\<rparr>) \<and>
    names_ok (s\<lparr>expenses := expenses s @ [new_row ev d]\<rparr>)"
  using assms
  by (auto simp: constraints_ok_def pk_ok_def donor_fk_def campaign_fk_def names_ok_def
      new_row_def has_id_def)

lemma donation_added_ok:
  assumes "constraints_ok s \<and> names_ok s" and "has_id (donors s) (d_donorId d)"
    and "ref_ok (campaigns s) (d_campaignId d)" and "\<not> has_id (donations s) (new_id ev)"
  shows "constraints_ok (s\<lparr>donations := donations s @ [new_row ev d]\<rparr>) \<and>
    names_ok (s\<lparr>donations := donations s @ [new_row ev d]\<rparr>)"
  using assms
  by (auto simp: constraints_ok_def pk_ok_def donor_fk_def campaign_fk_def names_ok_def
      new_row_def has_id_def)

lemma ref_ok_more: "ref_ok tbl c \<Longrightarrow> ref_ok (tbl @ [r]) c"
  by (auto simp: ref_ok_def has_id_def split: option.splits)

lemma list_all_ref_ok_more:
  "list_all (\<lambda>x. ref_ok tbl (f x)) xs \<Longrightarrow> list_all (\<lambda>x. ref_ok (tbl @ [r]) (f x)) xs"
  by (auto simp: list_all_iff ref_ok_more)

lemma campaign_added_ok:
  assumes "constraints_ok s \<and> names_ok s" and "c_name d \<noteq> []"
    and "\<not> has_id (campaigns s) (new_id ev)"
  shows "constraints_ok (s\<lparr>campaigns := campaigns s @ [new_row ev d]\<rparr>) \<and>
    names_ok (s\<lparr>campaigns := campaigns s @ [new_row ev d]\<rparr>)"
  using assms
  by (auto simp: constraints_ok_def pk_ok_def donor_fk_def campaign_fk_def names_ok_def
      has_id_def new_row_def intro: list_all_ref_ok_more)

lemma donor_added_ok:
  assumes "constraints_ok s \<and> names_ok s" and "\<not> has_id (donors s) (new_id ev)"
  shows "constraints_ok (s\<lparr>donors := donors s @ [new_row ev d]\<rparr>) \<and>
    names_ok (s\<lparr>donors := donors s @ [new_row ev d]\<rparr>)"
  using assms
  by (auto simp: constraints_ok_def pk_ok_def donor_fk_def campaign_fk_def names_ok_def
      new_row_def has_id_def list_all_iff)

lemma beneficiary_added_ok:
  assumes "constraints_ok s \<and> names_ok s" and "\<not> has_id (beneficiaries s) (new_id ev)"
  shows "constraints_ok (s\<lparr>beneficiaries := beneficiaries s @ [new_row ev d]\<rparr>) \<and>
    names_ok (s\<lparr>beneficiaries := beneficiaries s @ [new_row ev d]\<rparr>)"
  using assms
  by (auto simp: constraints_ok_def pk_ok_def donor_fk_def campaign_fk_def names_ok_def
      new_row_def has_id_def)

lemma createExpense_ok:
  assumes "constraints_ok s \<and> names_ok s"
  shows "constraints_ok (snd (createExpense ev b s)) \<and> names_ok (snd (createExpense ev b s))"
    and "constraints_ok (snd (app_post_expenses ev b s)) \<and>
      names_ok (snd (app_post_expenses ev b s))"
  using createExpense_cases [of ev b s] assms
  by (auto simp: createExpense_stored expense_added_ok)

lemma createDonation_ok:
  assumes "constraints_ok s \<and> names_ok s"
  shows "constraints_ok (snd (createDonation ev b s)) \<and> names_ok (snd (createDonation ev b s))"
    and "constraints_ok (snd (app_post_donations ev b s)) \<and>
      names_ok (snd (app_post_donations ev b s))"
  using createDonation_cases [of ev b s] assms
  by (auto simp: createDonation_stored donation_added_ok)

lemma createCampaign_ok:
  assumes "constraints_ok s \<and> names_ok s"
  shows "constraints_ok (snd (createCampaign ev b s)) \<and> names_ok (snd (createCampaign ev b s))"
    and "constraints_ok (snd (app_post_campaigns ev b s)) \<and>
      names_ok (snd (app_post_campaigns ev b s))"
  using createCampaign_cases [of ev b s] assms
  by (auto simp: createCampaign_stored campaign_added_ok campaignSchema_name)

lemma createDonor_ok:
  assumes "constraints_ok s \<and> names_ok s"
  shows "constraints_ok (snd (createDonor dp ev b s)) \<and> names_ok (snd (createDonor dp ev b s))"
    and "constraints_ok (snd (app_post_donors dp ev b s)) \<and>
      names_ok (snd (app_post_donors dp ev b s))"
  using createDonor_cases [of dp ev b s] assms
  by (auto simp: createDonor_stored donor_added_ok)

lemma createBeneficiary_ok:
  assumes "constraints_ok s \<and> names_ok s"
  shows "constraints_ok (snd (createBeneficiary ev b s)) \<and>
      names_ok (snd (createBeneficiary ev b s))"
    and "constraints_ok (snd (app_post_beneficiaries ev b s)) \<and>
      names_ok (snd (app_post_beneficiaries ev b s))"
  using createBeneficiary_cases [of ev b s] assms
  by (auto simp: createBeneficiary_stored beneficiary_added_ok)

lemma app_handler_ok:
  assumes "constraints_ok s \<and> names_ok s"
  shows "constraints_ok (snd (app_handler ep dp ev b s)) \<and>
    names_ok (snd (app_handler ep dp ev b s))"
  using assms createExpense_ok(2) createDonation_ok(2) createCampaign_ok(2) createDonor_ok(2)
    createBeneficiary_ok(2)
  by (cases ep) simp_all

lemma router_handler_ok:
  assumes "constraints_ok s \<and> names_ok s"
  shows "constraints_ok (snd (router_handler ep dp ev b s)) \<and>
    names_ok (snd (router_handler ep dp ev b s))"
  using assms createExpense_ok(1) createDonation_ok(1) createCampaign_ok(1) createDonor_ok(1)
    createBeneficiary_ok(1)
  by (cases ep) simp_all

subsection \<open>Deletes\<close>

lemma cleared_idents:
  "ident \<circ> clear_donation_campaign cid = ident"
  "ident \<circ> clear_expense_campaign cid = ident"
  by (auto simp: clear_donation_campaign_def clear_expense_campaign_def fun_eq_iff)

lemma delete_campaign_ok:
  assumes "constraints_ok s \<and> names_ok s"
  shows "constraints_ok (delete_campaign cid s) \<and> names_ok (delete_campaign cid s)"
proof -
  have pk: "pk_ok (delete_campaign cid s)"
    using assms
    by (simp add: constraints_ok_def pk_ok_def delete_campaign_def cleared_idents
        distinct_map_filter)
  have dfk: "donor_fk (delete_campaign cid s)"
    using assms
    by (auto simp: constraints_ok_def donor_fk_def delete_campaign_def list_all_iff
        clear_donation_campaign_def)
  have keep: "ref_ok (filter (\<lambda>c. ident c \<noteq> cid) (campaigns s)) r"
    if "ref_ok (campaigns s) r" and "r \<noteq> Some cid" for r
    using that by (auto simp: ref_ok_def has_id_def split: option.splits)
  have cfk: "campaign_fk (delete_campaign cid s)"
    using assms keep
    by (auto simp: constraints_ok_def campaign_fk_def delete_campaign_def list_all_iff
        clear_donation_campaign_def clear_expense_campaign_def ref_ok_def)
  have nm: "names_ok (delete_campaign cid s)"
    using assms by (auto simp: names_ok_def delete_campaign_def list_all_iff)
  from pk dfk cfk nm show ?thesis by (simp add: constraints_ok_def)
qed

lemma delete_donor_ok:
  assumes "constraints_ok s \<and> names_ok s"
  shows "constraints_ok (delete_donor did s) \<and> names_ok (delete_donor did s)"
  using assms
  by (auto simp: constraints_ok_def pk_ok_def donor_fk_def campaign_fk_def names_ok_def
      delete_donor_def list_all_iff has_id_def distinct_map_filter)

lemma persisted_ok: "persisted s \<Longrightarrow> constraints_ok s \<and> names_ok s"
proof (induction rule: persisted.induct)
  case initial
  show ?case by (rule empty_db_ok)
next
  case (app_handled s ep dp ev b)
  from app_handler_ok [OF this(2)] show ?case .
next
  case (router_handled s ep dp ev b)
  from router_handler_ok [OF this(2)] show ?case .
next
  case (campaign_deleted s cid)
  from delete_campaign_ok [OF this(2)] show ?case .
next
  case (donor_deleted s did)
  from delete_donor_ok [OF this(2)] show ?case .
qed

text \<open>A request leaves a persisted state persisted.\<close>

lemma persisted_served:
  assumes "persisted s"
  shows "persisted (snd (app_request dp ev req s))"
    and "persisted (snd (router_request mw dp ev req s))"
  using assms
  by (auto simp: app_request_def router_request_def serve_def
      intro: persisted.app_handled persisted.router_handled
      split: option.splits middleware_result.splits)

text \<open>Rows that the handlers can have stored.\<close>

lemma persisted_donor:
  assumes "persisted s" and "dn_name d \<noteq> []" and "dn_email d = None"
    and "\<not> has_id (donors s) i"
  shows "persisted (s\<lparr>donors := donors s @ [\<lparr>ident = i, createdAt = t, updatedAt = t, data = d\<rparr>]\<rparr>)"
proof -
  let ?ev = "\<lparr>new_id = i, now = t\<rparr>"
  let ?b = "JObj ((''name'', JStr (dn_name d)) #
    (case dn_phone d of None \<Rightarrow> [] | Some p \<Rightarrow> [(''phone'', JStr p)]) @
    (case dn_address d of None \<Rightarrow> [] | Some a \<Rightarrow> [(''address'', JStr a)]))"
  have sch: "donorSchema f ?b = Inr d" for f
    using assms(2,3)
    by (cases d)
      (auto simp: donorSchema_def z_string_min1_def z_string_def z_optional_def
        split: option.splits)
  have fresh: "\<not> has_id (donors s) (new_id ?ev)" using assms(4) by simp
  have "snd (app_handler DonorsCreate dp ?ev ?b s) =
      s\<lparr>donors := donors s @ [\<lparr>ident = i, createdAt = t, updatedAt = t, data = d\<rparr>]\<rparr>" for dp
    using createDonor_stored [OF sch fresh, of dp] by (simp add: new_row_def)
  then show ?thesis
    using persisted.app_handled [OF assms(1), of DonorsCreate _ ?ev ?b] by simp
qed

lemma persisted_donation:
  assumes "persisted s" and "0 < d_amount d" and "has_id (donors s) (d_donorId d)"
    and "ref_ok (campaigns s) (d_campaignId d)" and "\<not> has_id (donations s) i"
  shows "persisted
    (s\<lparr>donations := donations s @ [\<lparr>ident = i, createdAt = t, updatedAt = t, data = d\<rparr>]\<rparr>)"
proof -
  let ?ev = "\<lparr>new_id = i, now = t\<rparr>"
  let ?b = "JObj ((''amount'', JNum (d_amount d)) # (''donorId'', JStr (d_donorId d)) #
    (case d_campaignId d of None \<Rightarrow> [] | Some c \<Rightarrow> [(''campaignId'', JStr c)]))"
  have sch: "donationSchema ?b = Inr d"
    using assms(2)
    by (cases d)
      (auto simp: donationSchema_def z_number_positive_def z_string_def z_optional_def
        split: option.splits)
  have fresh: "\<not> has_id (donations s) (new_id ?ev)" using assms(5) by simp
  have "snd (app_handler DonationsCreate dp ?ev ?b s) =
      s\<lparr>donations := donations s @ [\<lparr>ident = i, createdAt = t, updatedAt = t, data = d\<rparr>]\<rparr>"
    for dp
    using createDonation_stored [OF sch assms(3,4) fresh] by (simp add: new_row_def)
  then show ?thesis
    using persisted.app_handled [OF assms(1), of DonationsCreate _ ?ev ?b] by simp
qed

lemma persisted_campaign:
  assumes "persisted s" and "c_name d \<noteq> []" and "c_targetAmount d = None"
    and "\<not> has_id (campaigns s) i"
  shows "persisted
    (s\<lparr>campaigns := campaigns s @ [\<lparr>ident = i, createdAt = t, updatedAt = t, data = d\<rparr>]\<rparr>)"
proof -
  let ?ev = "\<lparr>new_id = i, now = t\<rparr>"
  let ?b = "JObj ((''name'', JStr (c_name d)) #
    (''status'', JStr (case c_status d of ACTIVE \<Rightarrow> ''ACTIVE'' | COMPLETED \<Rightarrow> ''COMPLETED''
       | PAUSED \<Rightarrow> ''PAUSED'')) #
    (case c_description d of None \<Rightarrow> [] | Some x \<Rightarrow> [(''description'', JStr x)]))"
  have sch: "campaignSchema ?b = Inr d"
    using assms(2,3)
    by (cases d; cases "c_status d")
      (auto simp: campaignSchema_def z_string_def z_string_min1_def
        z_optional_def z_status_def split: option.splits)
  have fresh: "\<not> has_id (campaigns s) (new_id ?ev)" using assms(4) by simp
  have "snd (app_handler CampaignsCreate dp ?ev ?b s) =
      s\<lparr>campaigns := campaigns s @ [\<lparr>ident = i, createdAt = t, updatedAt = t, data = d\<rparr>]\<rparr>"
    for dp
    using createCampaign_stored [OF sch fresh] by (simp add: new_row_def)
  then show ?thesis
    using persisted.app_handled [OF assms(1), of CampaignsCreate _ ?ev ?b] by simp
qed

lemma persisted_expense:
  assumes "persisted s" and "e_description d \<noteq> []" and "0 < e_amount d"
    and "e_category d \<noteq> []" and "ref_ok (campaigns s) (e_campaignId d)"
    and "\<not> has_id (expenses s) i"
  shows "persisted
    (s\<lparr>expenses := expenses s @ [\<lparr>ident = i, createdAt = t, updatedAt = t, data = d\<rparr>]\<rparr>)"
proof -
  let ?ev = "\<lparr>new_id = i, now = t\<rparr>"
  let ?b = "JObj ((''description'', JStr (e_description d)) # (''amount'', JNum (e_amount d)) #
    (''category'', JStr (e_category d)) #
    (case e_campaignId d of None \<Rightarrow> [] | Some c \<Rightarrow> [(''campaignId'', JStr c)]))"
  have sch: "expenseSchema ?b = Inr d"
    using assms(2,3,4)
    by (cases d)
      (auto simp: expenseSchema_def z_number_positive_def z_string_def z_string_min1_def
        z_optional_def split: option.splits)
  have fresh: "\<not> has_id (expenses s) (new_id ?ev)" using assms(6) by simp
  have "snd (app_handler ExpensesCreate dp ?ev ?b s) =
      s\<lparr>expenses := expenses s @ [\<lparr>ident = i, createdAt = t, updatedAt = t, data = d\<rparr>]\<rparr>"
    for dp
    using createExpense_stored [OF sch assms(5) fresh] by (simp add: new_row_def)
  then show ?thesis
    using persisted.app_handled [OF assms(1), of ExpensesCreate _ ?ev ?b] by simp
qed


section \<open>The sample states are persisted\<close>

lemma persisted_donor_only:
  "persisted \<lparr>campaigns = [], donors = [demo_donor], beneficiaries = [], donations = [],
     expenses = []\<rparr>"
  using persisted_donor [OF persisted.initial, of "data demo_donor" "''d1''" 2000]
  by (simp add: demo_donor_def empty_db_def has_id_def)

lemma persisted_two_donations:
  assumes "0 < a" and "0 < b" and that: "i \<noteq> j"
  shows "persisted \<lparr>campaigns = [], donors = [demo_donor], beneficiaries = [],
     donations = [demo_donation i 3000 a None, demo_donation j 4000 b None], expenses = []\<rparr>"
proof -
  let ?s0 = "\<lparr>campaigns = [], donors = [demo_donor], beneficiaries = [], donations = [],
     expenses = []\<rparr>"
  have "persisted (?s0\<lparr>donations := donations ?s0 @ [demo_donation i 3000 a None]\<rparr>)"
    unfolding demo_donation_def
    using assms(1)
    by (intro persisted_donation [OF persisted_donor_only])
      (simp_all add: has_id_def ref_ok_def demo_donor_def)
  then have p1: "persisted \<lparr>campaigns = [], donors = [demo_donor], beneficiaries = [],
     donations = [demo_donation i 3000 a None], expenses = []\<rparr>" (is "persisted ?s1")
    by simp
  have "persisted (?s1\<lparr>donations := donations ?s1 @ [demo_donation j 4000 b None]\<rparr>)"
    unfolding demo_donation_def
    using assms(2) that
    by (intro persisted_donation [OF p1 [unfolded demo_donation_def]])
      (simp_all add: has_id_def ref_ok_def demo_donor_def)
  then show ?thesis by simp
qed

lemma persisted_overflow_db: "persisted overflow_db"
  unfolding overflow_db_def
  by (rule persisted_two_donations) (simp_all add: float8_huge_def)

lemma persisted_tenths_db: "persisted tenths_db"
  unfolding tenths_db_def
  by (rule persisted_two_donations) simp_all

lemma persisted_demo_db: "persisted demo_db"
proof -
  let ?s0 = "\<lparr>campaigns = [], donors = [demo_donor], beneficiaries = [], donations = [],
     expenses = []\<rparr>"
  have "persisted (?s0\<lparr>campaigns := campaigns ?s0 @ [demo_campaign]\<rparr>)"
    unfolding demo_campaign_def
    by (intro persisted_campaign [OF persisted_donor_only]) (simp_all add: has_id_def)
  then have p0: "persisted \<lparr>campaigns = [demo_campaign], donors = [demo_donor],
     beneficiaries = [], donations = [], expenses = []\<rparr>"
    by simp
  have step: "persisted \<lparr>campaigns = [demo_campaign], donors = [demo_donor],
       beneficiaries = [], donations = ds @ [demo_donation i t a c], expenses = []\<rparr>"
    if "persisted \<lparr>campaigns = [demo_campaign], donors = [demo_donor],
       beneficiaries = [], donations = ds, expenses = []\<rparr>" (is "persisted ?s")
      and "0 < a" and "i \<notin> ident ` set ds" and "c = None \<or> c = Some ''c1''"
    for ds i t a c
  proof -
    have "persisted (?s\<lparr>donations := donations ?s @ [demo_donation i t a c]\<rparr>)"
      unfolding demo_donation_def
      using that(2,3,4)
      by (intro persisted_donation [OF that(1)])
        (auto simp: has_id_def ref_ok_def demo_donor_def demo_campaign_def)
    then show ?thesis by simp
  qed
  have "persisted \<lparr>campaigns = [demo_campaign], donors = [demo_donor],
       beneficiaries = [], donations = donations demo_db, expenses = []\<rparr>"
    unfolding demo_db_def
    apply simp
    apply (rule step [of "[_, _, _, _, _]", simplified])
       apply (rule step [of "[_, _, _, _]", simplified])
          apply (rule step [of "[_, _, _]", simplified])
             apply (rule step [of "[_, _]", simplified])
                apply (rule step [of "[_]", simplified])
                   apply (rule step [of "[]", simplified])
                      apply (rule p0)
                     apply (simp_all add: demo_donation_def)
    done
  then have pd: "persisted \<lparr>campaigns = [demo_campaign], donors = [demo_donor],
       beneficiaries = [], donations = donations demo_db, expenses = []\<rparr>" (is "persisted ?sd") .
  have "persisted (?sd\<lparr>expenses := expenses ?sd @
      [demo_expense ''e1'' 1704067200000 ''Rice'' 500 None]\<rparr>)"
    unfolding demo_expense_def
    by (intro persisted_expense [OF pd]) (simp_all add: has_id_def ref_ok_def)
  then have pe: "persisted \<lparr>campaigns = [demo_campaign], donors = [demo_donor],
       beneficiaries = [], donations = donations demo_db,
       expenses = [demo_expense ''e1'' 1704067200000 ''Rice'' 500 None]\<rparr>" (is "persisted ?se")
    by simp
  have "persisted (?se\<lparr>expenses := expenses ?se @
      [demo_expense ''e2'' 1709164800123 ''Books'' 20 (Some ''c1'')]\<rparr>)"
    unfolding demo_expense_def
    by (intro persisted_expense [OF pe [unfolded demo_expense_def]])
      (simp_all add: has_id_def ref_ok_def demo_campaign_def)
  then show ?thesis by (simp add: demo_db_def)
qed


section \<open>The dashboard\<close>

lemma or_zero_id: "or_zero v = (case v of None \<Rightarrow> 0 | Some a \<Rightarrow> a)"
  by (simp add: or_zero_def split: option.splits)

lemma stats_in_range:
  assumes "aggregate_sum (map (\<lambda>d. d_amount (data d)) (donations s)) = Inr sd"
    and "aggregate_sum (map (\<lambda>e. e_amount (data e)) (expenses s)) = Inr se"
  shows "getDashboardStats s =
     Response 200 (Stats
       \<lparr>totalDonations = (case sd of None \<Rightarrow> 0 | Some v \<Rightarrow> v),
        totalExpenses = (case se of None \<Rightarrow> 0 | Some v \<Rightarrow> v),
        activeCampaigns = length (filter (\<lambda>c. c_status (data c) = ACTIVE) (campaigns s)),
        recentDonors = recent_donations s\<rparr>)"
  by (simp add: getDashboardStats_def assms or_zero_id)

lemma stats_out_of_range:
  assumes "aggregate_sum (map (\<lambda>d. d_amount (data d)) (donations s)) = Inl e \<or>
     aggregate_sum (map (\<lambda>e. e_amount (data e)) (expenses s)) = Inl e"
  shows "getDashboardStats s = Response 500 (Error ''Failed to fetch dashboard statistics'' None)"
  using assms by (auto simp: getDashboardStats_def split: sum.splits)

lemma overflow_sum:
  "aggregate_sum (map (\<lambda>d. d_amount (data d)) (donations overflow_db)) = Inl ValueOutOfRange"
proof -
  have "float8_limit \<le> \<bar>float8_huge + float8_huge\<bar>"
    by (simp add: float8_limit_def float8_huge_def)
  then have "float8_pl float8_huge float8_huge = Inl ValueOutOfRange"
    by (rule float8_pl_overflow)
  then show ?thesis
    by (simp add: aggregate_sum_def overflow_db_def demo_donation_def)
qed

lemma overflow_stats:
  "getDashboardStats overflow_db =
     Response 500 (Error ''Failed to fetch dashboard statistics'' None)"
  by (rule stats_out_of_range [of _ ValueOutOfRange]) (simp add: overflow_sum)

lemma tenths_sum:
  "aggregate_sum (map (\<lambda>d. d_amount (data d)) (donations tenths_db)) =
     Inr (Some (5404319552844596 / 2 ^ 54))"
  unfolding tenths_db_def demo_donation_def aggregate_sum_def
  by (simp add: float8_pl_tenths del: power_numeral)

lemma demo_exact:
  "adds_exactly 1 [2, 3, 4, 5, 6]" "adds_exactly 500 [20]"
  by (simp_all add: float8_round_numeral)

lemma demo_amounts:
  "map (\<lambda>d. d_amount (data d)) (donations demo_db) = [1, 2, 3, 4, 5, 6]"
  "map (\<lambda>e. e_amount (data e)) (expenses demo_db) = [500, 20]"
  by (simp_all add: demo_db_def demo_donation_def demo_expense_def)

lemma demo_sums:
  "aggregate_sum (map (\<lambda>d. d_amount (data d)) (donations demo_db)) = Inr (Some 21)"
  "aggregate_sum (map (\<lambda>e. e_amount (data e)) (expenses demo_db)) = Inr (Some 520)"
  unfolding demo_amounts
  using aggregate_sum_exact [OF demo_exact(1)] aggregate_sum_exact [OF demo_exact(2)]
  by simp_all

text \<open>
  Claim C5, as the code has it. The amounts are \<open>DOUBLE PRECISION\<close> columns and the two
  totals are the \<open>float8\<close> sums of the database. When both sums are in range the dashboard
  answers 200 and \<open>totalDonations\<close>, \<open>totalExpenses\<close> are those sums, taken over all
  persisted donations and all persisted expenses, or the number 0 for a table with no row.
  Such a sum is the sum of the amounts whenever no addition of it rounds. When one of the
  sums leaves the range of a double the query fails and the dashboard answers 500 with no
  totals at all.
\<close>

theorem dashboard_totals:
  "(\<forall>sd se.
      aggregate_sum (map (\<lambda>d. d_amount (data d)) (donations s)) = Inr sd \<and>
      aggregate_sum (map (\<lambda>e. e_amount (data e)) (expenses s)) = Inr se \<longrightarrow>
      (\<exists>st. getDashboardStats s = Response 200 (Stats st) \<and>
         totalDonations st = (case sd of None \<Rightarrow> 0 | Some v \<Rightarrow> v) \<and>
         totalExpenses st = (case se of None \<Rightarrow> 0 | Some v \<Rightarrow> v))) \<and>
   (\<forall>e.
      aggregate_sum (map (\<lambda>d. d_amount (data d)) (donations s)) = Inl e \<or>
      aggregate_sum (map (\<lambda>e. e_amount (data e)) (expenses s)) = Inl e \<longrightarrow>
      getDashboardStats s =
        Response 500 (Error ''Failed to fetch dashboard statistics'' None)) \<and>
   (donations s = [] \<longrightarrow>
      aggregate_sum (map (\<lambda>d. d_amount (data d)) (donations s)) = Inr None) \<and>
   (expenses s = [] \<longrightarrow>
      aggregate_sum (map (\<lambda>e. e_amount (data e)) (expenses s)) = Inr None) \<and>
   (\<forall>x xs.
      map (\<lambda>d. d_amount (data d)) (donations s) = x # xs \<and> adds_exactly x xs \<longrightarrow>
      aggregate_sum (map (\<lambda>d. d_amount (data d)) (donations s)) =
        Inr (Some (\<Sum>d\<leftarrow>donations s. d_amount (data d)))) \<and>
   (\<forall>x xs.
      map (\<lambda>e. e_amount (data e)) (expenses s) = x # xs \<and> adds_exactly x xs \<longrightarrow>
      aggregate_sum (map (\<lambda>e. e_amount (data e)) (expenses s)) =
        Inr (Some (\<Sum>e\<leftarrow>expenses s. e_amount (data e))))"
proof (intro conjI allI impI)
  fix sd se
  assume "aggregate_sum (map (\<lambda>d. d_amount (data d)) (donations s)) = Inr sd \<and>
      aggregate_sum (map (\<lambda>e. e_amount (data e)) (expenses s)) = Inr se"
  then show "\<exists>st. getDashboardStats s = Response 200 (Stats st) \<and>
         totalDonations st = (case sd of None \<Rightarrow> 0 | Some v \<Rightarrow> v) \<and>
         totalExpenses st = (case se of None \<Rightarrow> 0 | Some v \<Rightarrow> v)"
    by (simp add: stats_in_range)
next
  fix e
  assume "aggregate_sum (map (\<lambda>d. d_amount (data d)) (donations s)) = Inl e \<or>
      aggregate_sum (map (\<lambda>e. e_amount (data e)) (expenses s)) = Inl e"
  then show "getDashboardStats s =
        Response 500 (Error ''Failed to fetch dashboard statistics'' None)"
    by (rule stats_out_of_range)
next
  assume "donations s = []"
  then show "aggregate_sum (map (\<lambda>d. d_amount (data d)) (donations s)) = Inr None"
    by (simp add: aggregate_sum_empty)
next
  assume "expenses s = []"
  then show "aggregate_sum (map (\<lambda>e. e_amount (data e)) (expenses s)) = Inr None"
    by (simp add: aggregate_sum_empty)
next
  fix x xs
  assume "map (\<lambda>d. d_amount (data d)) (donations s) = x # xs \<and> adds_exactly x xs"
  then show "aggregate_sum (map (\<lambda>d. d_amount (data d)) (donations s)) =
        Inr (Some (\<Sum>d\<leftarrow>donations s. d_amount (data d)))"
    using aggregate_sum_exact [of x xs] by simp
next
  fix x xs
  assume "map (\<lambda>e. e_amount (data e)) (expenses s) = x # xs \<and> adds_exactly x xs"
  then show "aggregate_sum (map (\<lambda>e. e_amount (data e)) (expenses s)) =
        Inr (Some (\<Sum>e\<leftarrow>expenses s. e_amount (data e)))"
    using aggregate_sum_exact [of x xs] by simp
qed

theorem dashboard_totals_witness:
  "persisted demo_db \<and>
   map (\<lambda>d. d_amount (data d)) (donations demo_db) = [1, 2, 3, 4, 5, 6] \<and>
   adds_exactly 1 [2, 3, 4, 5, 6] \<and>
   map (\<lambda>e. e_amount (data e)) (expenses demo_db) = [500, 20] \<and>
   adds_exactly 500 [20] \<and>
   aggregate_sum (map (\<lambda>d. d_amount (data d)) (donations demo_db)) = Inr (Some 21) \<and>
   aggregate_sum (map (\<lambda>e. e_amount (data e)) (expenses demo_db)) = Inr (Some 520) \<and>
   (\<exists>st. getDashboardStats demo_db = Response 200 (Stats st) \<and>
         totalDonations st = 21 \<and> totalExpenses st = 520) \<and>
   donations empty_db = [] \<and> expenses empty_db = [] \<and>
   (\<exists>st. getDashboardStats empty_db = Response 200 (Stats st) \<and>
         totalDonations st = 0 \<and> totalExpenses st = 0) \<and>
   aggregate_sum (map (\<lambda>d. d_amount (data d)) (donations overflow_db)) = Inl ValueOutOfRange \<and>
   getDashboardStats overflow_db =
     Response 500 (Error ''Failed to fetch dashboard statistics'' None)"
proof -
  note t = dashboard_totals [of demo_db]
  have e: "donations empty_db = []" "expenses empty_db = []"
    by (simp_all add: empty_db_def)
  have s1: "aggregate_sum (map (\<lambda>d. d_amount (data d)) (donations demo_db)) = Inr (Some 21)"
    using t demo_amounts(1) demo_exact(1) by simp
  have s2: "aggregate_sum (map (\<lambda>e. e_amount (data e)) (expenses demo_db)) = Inr (Some 520)"
    using t demo_amounts(2) demo_exact(2) by simp
  have d: "\<exists>st. getDashboardStats demo_db = Response 200 (Stats st) \<and>
         totalDonations st = 21 \<and> totalExpenses st = 520"
    using t s1 s2 by simp
  have n1: "aggregate_sum (map (\<lambda>d. d_amount (data d)) (donations empty_db)) = Inr None"
    using dashboard_totals [of empty_db] e by blast
  have n2: "aggregate_sum (map (\<lambda>e. e_amount (data e)) (expenses empty_db)) = Inr None"
    using dashboard_totals [of empty_db] e by blast
  have z: "\<exists>st. getDashboardStats empty_db = Response 200 (Stats st) \<and>
         totalDonations st = 0 \<and> totalExpenses st = 0"
    using dashboard_totals [of empty_db] n1 n2 by simp
  have o: "getDashboardStats overflow_db =
     Response 500 (Error ''Failed to fetch dashboard statistics'' None)"
    using dashboard_totals [of overflow_db] overflow_sum by blast
  show ?thesis
    by (intro conjI) (rule persisted_demo_db demo_amounts demo_exact s1 s2 d e z overflow_sum o)+
qed

text \<open>
  The claim as the specification words it, the totals being the sums of the amounts
  whatever is persisted, fails on two states that the create requests reach. After two
  donations of \<open>2 ^ 1023\<close> the sum is out of range and the dashboard answers 500. After
  donations of the doubles nearest to 0.1 and 0.2 it answers 200 with a total that is not
  the sum of the two amounts.
\<close>

theorem dashboard_totals_counterexample:
  "persisted overflow_db \<and>
   map (\<lambda>d. d_amount (data d)) (donations overflow_db) = [2 ^ 1023, 2 ^ 1023] \<and>
   getDashboardStats overflow_db =
     Response 500 (Error ''Failed to fetch dashboard statistics'' None) \<and>
   persisted tenths_db \<and>
   map (\<lambda>d. d_amount (data d)) (donations tenths_db) =
     [3602879701896397 / 2 ^ 55, 3602879701896397 / 2 ^ 54] \<and>
   getDashboardStats tenths_db =
     Response 200 (Stats
       \<lparr>totalDonations = 5404319552844596 / 2 ^ 54, totalExpenses = 0, activeCampaigns = 0,
        recentDonors = recent_donations tenths_db\<rparr>) \<and>
   (\<Sum>d\<leftarrow>donations tenths_db. d_amount (data d)) = 10808639105689191 / 2 ^ 55 \<and>
   (5404319552844596 / 2 ^ 54 :: rat) \<noteq> 10808639105689191 / 2 ^ 55"
proof -
  have a: "map (\<lambda>d. d_amount (data d)) (donations overflow_db) = [2 ^ 1023, 2 ^ 1023]"
    by (simp add: overflow_db_def demo_donation_def float8_huge_def del: power_numeral)
  have b: "map (\<lambda>d. d_amount (data d)) (donations tenths_db) =
     [3602879701896397 / 2 ^ 55, 3602879701896397 / 2 ^ 54]"
    by (simp add: tenths_db_def demo_donation_def del: power_numeral)
  have e: "aggregate_sum (map (\<lambda>e. e_amount (data e)) (expenses tenths_db)) = Inr None"
    by (simp add: tenths_db_def aggregate_sum_def)
  have c: "getDashboardStats tenths_db =
     Response 200 (Stats
       \<lparr>totalDonations = 5404319552844596 / 2 ^ 54, totalExpenses = 0, activeCampaigns = 0,
        recentDonors = recent_donations tenths_db\<rparr>)"
    using stats_in_range [OF tenths_sum e] by (simp add: tenths_db_def)
  have d: "(\<Sum>d\<leftarrow>donations tenths_db. d_amount (data d)) = 10808639105689191 / 2 ^ 55"
    unfolding b by simp
  have f: "(5404319552844596 / 2 ^ 54 :: rat) \<noteq> 10808639105689191 / 2 ^ 55"
    by simp
  show ?thesis
    by (intro conjI) (rule persisted_overflow_db a overflow_stats persisted_tenths_db b c d f)+
qed


subsection \<open>The recent donors\<close>

lemma find_by_id_None: "find_by_id tbl i = None \<Longrightarrow> \<not> has_id tbl i"
  by (auto simp: find_by_id_def has_id_def find_None_iff)

lemma only_row:
  assumes "distinct (map ident tbl)" and "r \<in> set tbl" and "x \<in> set tbl" and "ident x = ident r"
  shows "x = r"
  using assms by (meson distinct_map inj_onD)

lemma recent_length: "length (recent_donations s) = min 5 (length (donations s))"
  by (simp add: recent_donations_def length_desc min.commute)

lemma recent_rows: "map donation (recent_donations s) = take 5 (order_by_createdAt_desc (donations s))"
  by (simp add: recent_donations_def include_donor_campaign_def comp_def)

lemma recent_sorted:
  "sorted_wrt (\<lambda>a b. createdAt (donation a) \<ge> createdAt (donation b)) (recent_donations s)"
proof -
  have "sorted_wrt (\<lambda>a b. createdAt a \<ge> createdAt b) (map donation (recent_donations s))"
    unfolding recent_rows by (rule sorted_wrt_take) (rule sorted_desc)
  then show ?thesis by (simp add: sorted_wrt_map)
qed

lemma recent_sub: "mset (map donation (recent_donations s)) \<subseteq># mset (donations s)"
proof -
  have "mset (take 5 (order_by_createdAt_desc (donations s))) \<subseteq># mset (order_by_createdAt_desc (donations s))"
    using mset_append [of "take 5 (order_by_createdAt_desc (donations s))" "drop 5 (order_by_createdAt_desc (donations s))"]
    by (simp del: mset_append)
  then show ?thesis by (simp only: recent_rows mset_desc)
qed

lemma recent_newest:
  "\<forall>d \<in># mset (donations s) - mset (map donation (recent_donations s)).
     \<forall>r \<in> set (recent_donations s). createdAt d \<le> createdAt (donation r)"
proof -
  let ?xs = "order_by_createdAt_desc (donations s)"
  have "\<forall>d \<in># mset ?xs - mset (take 5 ?xs). \<forall>r \<in> set (take 5 ?xs). createdAt d \<le> createdAt r"
    by (rule take_rest_older) (rule sorted_desc)
  moreover have "\<And>r. r \<in> set (recent_donations s) \<Longrightarrow> donation r \<in> set (take 5 ?xs)"
    by (auto simp: recent_donations_def include_donor_campaign_def)
  ultimately show ?thesis by (simp add: recent_rows mset_desc)
qed

lemma recent_joined:
  assumes "r \<in> set (recent_donations s)"
  shows "donation r \<in> set (donations s)"
    and "donation_donor r = find_by_id (donors s) (d_donorId (data (donation r)))"
    and "donation_campaign r = related (campaigns s) (d_campaignId (data (donation r)))"
proof -
  from assms obtain d where d: "d \<in> set (take 5 (order_by_createdAt_desc (donations s)))"
      and r: "r = include_donor_campaign s d"
    by (auto simp: recent_donations_def)
  from d have "d \<in> set (order_by_createdAt_desc (donations s))" by (rule in_set_takeD)
  then show "donation r \<in> set (donations s)"
    by (simp add: r include_donor_campaign_def set_desc)
  show "donation_donor r = find_by_id (donors s) (d_donorId (data (donation r)))"
    by (simp add: r include_donor_campaign_def)
  show "donation_campaign r = related (campaigns s) (d_campaignId (data (donation r)))"
    by (simp add: r include_donor_campaign_def)
qed

lemma recent_donor_row:
  assumes "r \<in> set (recent_donations s)" and "donation_donor r = Some dn"
  shows "dn \<in> set (donors s) \<and> ident dn = d_donorId (data (donation r))"
  using find_by_id_Some [of "donors s" "d_donorId (data (donation r))" dn]
    recent_joined(2) [OF assms(1)] assms(2) by simp

lemma recent_donor_none:
  assumes "r \<in> set (recent_donations s)" and "donation_donor r = None"
  shows "\<not> has_id (donors s) (d_donorId (data (donation r)))"
  using find_by_id_None [of "donors s" "d_donorId (data (donation r))"]
    recent_joined(2) [OF assms(1)] assms(2) by simp

lemma recent_campaign_row:
  assumes "r \<in> set (recent_donations s)" and "donation_campaign r = Some cp"
  shows "cp \<in> set (campaigns s) \<and> d_campaignId (data (donation r)) = Some (ident cp)"
proof -
  from recent_joined(3) [OF assms(1)] assms(2)
  obtain c where c: "d_campaignId (data (donation r)) = Some c"
      and f: "find_by_id (campaigns s) c = Some cp"
    by (auto simp: related_def split: option.splits)
  from find_by_id_Some [OF f] c show ?thesis by simp
qed

lemma recent_campaign_none:
  assumes "r \<in> set (recent_donations s)" and "donation_campaign r = None"
    and "d_campaignId (data (donation r)) = Some c"
  shows "\<not> has_id (campaigns s) c"
  using find_by_id_None [of "campaigns s" c] recent_joined(3) [OF assms(1)] assms(2,3)
  by (simp add: related_def)

lemma recent_no_campaign:
  assumes "r \<in> set (recent_donations s)" and "d_campaignId (data (donation r)) = None"
  shows "donation_campaign r = None"
  using recent_joined(3) [OF assms(1)] assms(2) by (simp add: related_def)

lemma recent_donor_present:
  assumes "r \<in> set (recent_donations s)" and "persisted s"
  shows "\<exists>dn \<in> set (donors s). donation_donor r = Some dn \<and>
     ident dn = d_donorId (data (donation r)) \<and>
     (\<forall>x \<in> set (donors s). ident x = d_donorId (data (donation r)) \<longrightarrow> x = dn)"
proof -
  from persisted_ok [OF assms(2)] have fk: "donor_fk s" and pk: "distinct (map ident (donors s))"
    by (simp_all add: constraints_ok_def pk_ok_def)
  have "has_id (donors s) (d_donorId (data (donation r)))"
    using recent_joined(1) [OF assms(1)] fk by (simp add: donor_fk_def list_all_iff)
  from find_by_id_has [OF this] obtain dn
    where dn: "find_by_id (donors s) (d_donorId (data (donation r))) = Some dn"
      "ident dn = d_donorId (data (donation r))" "dn \<in> set (donors s)"
    by blast
  have u: "\<forall>x \<in> set (donors s). ident x = d_donorId (data (donation r)) \<longrightarrow> x = dn"
    using only_row [OF pk dn(3)] dn(2) by simp
  have j: "donation_donor r = Some dn"
    by (simp only: recent_joined(2) [OF assms(1)] dn(1))
  show ?thesis
    by (rule bexI [of _ dn], intro conjI) (rule j dn(2) u dn(3))+
qed

lemma recent_campaign_present:
  assumes "r \<in> set (recent_donations s)" and "persisted s"
    and "d_campaignId (data (donation r)) = Some c"
  shows "\<exists>cp \<in> set (campaigns s). donation_campaign r = Some cp \<and> ident cp = c \<and>
     (\<forall>x \<in> set (campaigns s). ident x = c \<longrightarrow> x = cp)"
proof -
  from persisted_ok [OF assms(2)] have fk: "campaign_fk s"
    and pk: "distinct (map ident (campaigns s))"
    by (simp_all add: constraints_ok_def pk_ok_def)
  have "ref_ok (campaigns s) (d_campaignId (data (donation r)))"
    using recent_joined(1) [OF assms(1)] fk by (simp add: campaign_fk_def list_all_iff)
  then have "has_id (campaigns s) c"
    by (simp add: ref_ok_def assms(3))
  from find_by_id_has [OF this] obtain cp
    where cp: "find_by_id (campaigns s) c = Some cp" "ident cp = c" "cp \<in> set (campaigns s)"
    by blast
  have u: "\<forall>x \<in> set (campaigns s). ident x = c \<longrightarrow> x = cp"
    using only_row [OF pk cp(3)] cp(2) by simp
  have j: "donation_campaign r = Some cp"
    by (simp add: recent_joined(3) [OF assms(1)] assms(3) related_def cp(1))
  show ?thesis
    by (rule bexI [of _ cp], intro conjI) (rule j cp(2) u cp(3))+
qed

text \<open>
  Claim C6, as the code has it. When both sums of the dashboard are in range it answers
  200, and its \<open>recentDonors\<close> list has exactly \<open>min 5 n\<close> elements for \<open>n\<close> persisted
  donations and is ordered by creation time, newest first. Its elements are persisted
  donations and no donation left out is newer than one that is listed. A donor carried by
  an element is a row of the donors table whose id is the \<open>donorId\<close> of the donation, a
  campaign carried is a row of the campaigns table whose id is its \<open>campaignId\<close>, and a
  missing one means that the table has no such row or that the donation names no campaign.
  In a state that the requests and the cascading deletes can reach, every element carries
  the one donor with that id and, when it names a campaign, the one campaign with that id.
  When one of the sums is out of range the dashboard answers 500 and sends no list.
\<close>

theorem recent_donors_list:
  "(\<forall>sd se.
      aggregate_sum (map (\<lambda>d. d_amount (data d)) (donations s)) = Inr sd \<and>
      aggregate_sum (map (\<lambda>e. e_amount (data e)) (expenses s)) = Inr se \<longrightarrow>
      (\<exists>st. getDashboardStats s = Response 200 (Stats st) \<and>
         length (recentDonors st) = min 5 (length (donations s)) \<and>
         sorted_wrt (\<lambda>a b. createdAt (donation a) \<ge> createdAt (donation b)) (recentDonors st) \<and>
         mset (map donation (recentDonors st)) \<subseteq># mset (donations s) \<and>
         (\<forall>d \<in># mset (donations s) - mset (map donation (recentDonors st)).
            \<forall>r \<in> set (recentDonors st). createdAt d \<le> createdAt (donation r)) \<and>
         (\<forall>r \<in> set (recentDonors st).
            (\<forall>dn. donation_donor r = Some dn \<longrightarrow>
               dn \<in> set (donors s) \<and> ident dn = d_donorId (data (donation r))) \<and>
            (donation_donor r = None \<longrightarrow>
               \<not> has_id (donors s) (d_donorId (data (donation r)))) \<and>
            (\<forall>cp. donation_campaign r = Some cp \<longrightarrow>
               cp \<in> set (campaigns s) \<and> d_campaignId (data (donation r)) = Some (ident cp)) \<and>
            (\<forall>c. donation_campaign r = None \<and> d_campaignId (data (donation r)) = Some c \<longrightarrow>
               \<not> has_id (campaigns s) c) \<and>
            (d_campaignId (data (donation r)) = None \<longrightarrow> donation_campaign r = None) \<and>
            (persisted s \<longrightarrow>
               (\<exists>dn \<in> set (donors s). donation_donor r = Some dn \<and>
                  ident dn = d_donorId (data (donation r)) \<and>
                  (\<forall>x \<in> set (donors s). ident x = d_donorId (data (donation r)) \<longrightarrow> x = dn))) \<and>
            (\<forall>c. persisted s \<and> d_campaignId (data (donation r)) = Some c \<longrightarrow>
               (\<exists>cp \<in> set (campaigns s). donation_campaign r = Some cp \<and> ident cp = c \<and>
                  (\<forall>x \<in> set (campaigns s). ident x = c \<longrightarrow> x = cp)))))) \<and>
   (\<forall>e.
      aggregate_sum (map (\<lambda>d. d_amount (data d)) (donations s)) = Inl e \<or>
      aggregate_sum (map (\<lambda>e. e_amount (data e)) (expenses s)) = Inl e \<longrightarrow>
      getDashboardStats s =
        Response 500 (Error ''Failed to fetch dashboard statistics'' None))"
proof (intro conjI allI impI)
  fix sd se
  assume a: "aggregate_sum (map (\<lambda>d. d_amount (data d)) (donations s)) = Inr sd \<and>
      aggregate_sum (map (\<lambda>e. e_amount (data e)) (expenses s)) = Inr se"
  then obtain st where g: "getDashboardStats s = Response 200 (Stats st)"
    and rd: "recentDonors st = recent_donations s"
    by (simp add: stats_in_range)
  show "\<exists>st. getDashboardStats s = Response 200 (Stats st) \<and>
         length (recentDonors st) = min 5 (length (donations s)) \<and>
         sorted_wrt (\<lambda>a b. createdAt (donation a) \<ge> createdAt (donation b)) (recentDonors st) \<and>
         mset (map donation (recentDonors st)) \<subseteq># mset (donations s) \<and>
         (\<forall>d \<in># mset (donations s) - mset (map donation (recentDonors st)).
            \<forall>r \<in> set (recentDonors st). createdAt d \<le> createdAt (donation r)) \<and>
         (\<forall>r \<in> set (recentDonors st).
            (\<forall>dn. donation_donor r = Some dn \<longrightarrow>
               dn \<in> set (donors s) \<and> ident dn = d_donorId (data (donation r))) \<and>
            (donation_donor r = None \<longrightarrow>
               \<not> has_id (donors s) (d_donorId (data (donation r)))) \<and>
            (\<forall>cp. donation_campaign r = Some cp \<longrightarrow>
               cp \<in> set (campaigns s) \<and> d_campaignId (data (donation r)) = Some (ident cp)) \<and>
            (\<forall>c. donation_campaign r = None \<and> d_campaignId (data (donation r)) = Some c \<longrightarrow>
               \<not> has_id (campaigns s) c) \<and>
            (d_campaignId (data (donation r)) = None \<longrightarrow> donation_campaign r = None) \<and>
            (persisted s \<longrightarrow>
               (\<exists>dn \<in> set (donors s). donation_donor r = Some dn \<and>
                  ident dn = d_donorId (data (donation r)) \<and>
                  (\<forall>x \<in> set (donors s). ident x = d_donorId (data (donation r)) \<longrightarrow> x = dn))) \<and>
            (\<forall>c. persisted s \<and> d_campaignId (data (donation r)) = Some c \<longrightarrow>
               (\<exists>cp \<in> set (campaigns s). donation_campaign r = Some cp \<and> ident cp = c \<and>
                  (\<forall>x \<in> set (campaigns s). ident x = c \<longrightarrow> x = cp))))"
  proof (intro exI [of _ st] conjI ballI allI impI; (unfold rd)?)
    show "getDashboardStats s = Response 200 (Stats st)" by (rule g)
    show "length (recent_donations s) = min 5 (length (donations s))" by (rule recent_length)
    show "sorted_wrt (\<lambda>a b. createdAt (donation a) \<ge> createdAt (donation b)) (recent_donations s)"
      by (rule recent_sorted)
    show "mset (map donation (recent_donations s)) \<subseteq># mset (donations s)" by (rule recent_sub)
  next
    fix d r assume "d \<in># mset (donations s) - mset (map donation (recent_donations s))"
      and "r \<in> set (recent_donations s)"
    then show "createdAt d \<le> createdAt (donation r)" using recent_newest by blast
  next
    fix r dn assume "r \<in> set (recent_donations s)" and "donation_donor r = Some dn"
    then show "dn \<in> set (donors s)" and "ident dn = d_donorId (data (donation r))"
      using recent_donor_row by blast+
  next
    fix r assume "r \<in> set (recent_donations s)" and "donation_donor r = None"
    then show "\<not> has_id (donors s) (d_donorId (data (donation r)))"
      by (rule recent_donor_none)
  next
    fix r cp assume "r \<in> set (recent_donations s)" and "donation_campaign r = Some cp"
    then show "cp \<in> set (campaigns s)" and "d_campaignId (data (donation r)) = Some (ident cp)"
      using recent_campaign_row by blast+
  next
    fix r c assume "r \<in> set (recent_donations s)"
      and "donation_campaign r = None \<and> d_campaignId (data (donation r)) = Some c"
    then show "\<not> has_id (campaigns s) c"
      using recent_campaign_none by blast
  next
    fix r assume "r \<in> set (recent_donations s)" and "d_campaignId (data (donation r)) = None"
    then show "donation_campaign r = None" by (rule recent_no_campaign)
  next
    fix r assume "r \<in> set (recent_donations s)" and "persisted s"
    then show "\<exists>dn \<in> set (donors s). donation_donor r = Some dn \<and>
         ident dn = d_donorId (data (donation r)) \<and>
         (\<forall>x \<in> set (donors s). ident x = d_donorId (data (donation r)) \<longrightarrow> x = dn)"
      by (rule recent_donor_present)
  next
    fix r c assume "r \<in> set (recent_donations s)"
      and "persisted s \<and> d_campaignId (data (donation r)) = Some c"
    then show "\<exists>cp \<in> set (campaigns s). donation_campaign r = Some cp \<and> ident cp = c \<and>
         (\<forall>x \<in> set (campaigns s). ident x = c \<longrightarrow> x = cp)"
      using recent_campaign_present by blast
  qed
next
  fix e
  assume "aggregate_sum (map (\<lambda>d. d_amount (data d)) (donations s)) = Inl e \<or>
      aggregate_sum (map (\<lambda>e. e_amount (data e)) (expenses s)) = Inl e"
  then show "getDashboardStats s =
        Response 500 (Error ''Failed to fetch dashboard statistics'' None)"
    by (rule stats_out_of_range)
qed

theorem recent_donors_list_witness:
  "persisted demo_db \<and> length (donations demo_db) = 6 \<and>
   aggregate_sum (map (\<lambda>d. d_amount (data d)) (donations demo_db)) = Inr (Some 21) \<and>
   aggregate_sum (map (\<lambda>e. e_amount (data e)) (expenses demo_db)) = Inr (Some 520) \<and>
   (\<exists>st. getDashboardStats demo_db = Response 200 (Stats st) \<and>
         length (recentDonors st) = 5 \<and>
         map (\<lambda>r. ident (donation r)) (recentDonors st) = [''g4'', ''g5'', ''g6'', ''g2'', ''g3''] \<and>
         map (\<lambda>r. createdAt (donation r)) (recentDonors st) = [60, 50, 40, 30, 20] \<and>
         map donation_donor (recentDonors st) =
           [Some demo_donor, Some demo_donor, Some demo_donor, Some demo_donor, Some demo_donor] \<and>
         map donation_campaign (recentDonors st) = [None, None, None, Some demo_campaign, None]) \<and>
   aggregate_sum (map (\<lambda>d. d_amount (data d)) (donations overflow_db)) = Inl ValueOutOfRange \<and>
   getDashboardStats overflow_db =
     Response 500 (Error ''Failed to fetch dashboard statistics'' None)"
proof -
  have len: "length (donations demo_db) = 6"
    by (simp add: demo_db_def)
  have ev: "recent_donations demo_db =
      map (include_donor_campaign demo_db)
        [demo_donation ''g4'' 60 4 None, demo_donation ''g5'' 50 5 None,
         demo_donation ''g6'' 40 6 None, demo_donation ''g2'' 30 2 (Some ''c1''),
         demo_donation ''g3'' 20 3 None]"
    by (simp add: recent_donations_def order_by_createdAt_desc_def demo_db_def demo_donation_def)
  note t = recent_donors_list [of demo_db, THEN conjunct1, rule_format, OF conjI [OF demo_sums]]
  from t have "\<exists>st. getDashboardStats demo_db = Response 200 (Stats st) \<and>
      length (recentDonors st) = min 5 (length (donations demo_db))"
    by (elim exE conjE) (rule exI, rule conjI, assumption, assumption)
  then obtain st where g: "getDashboardStats demo_db = Response 200 (Stats st)"
    and l: "length (recentDonors st) = min 5 (length (donations demo_db))"
    by (elim exE conjE)
  from g have rd: "recentDonors st = recent_donations demo_db"
    by (auto simp: stats_in_range [OF demo_sums])
  have a1: "length (recentDonors st) = 5"
    using l len by simp
  have a2: "map (\<lambda>r. ident (donation r)) (recentDonors st) = [''g4'', ''g5'', ''g6'', ''g2'', ''g3'']"
    unfolding rd ev by (simp add: include_donor_campaign_def demo_donation_def)
  have a3: "map (\<lambda>r. createdAt (donation r)) (recentDonors st) = [60, 50, 40, 30, 20]"
    unfolding rd ev by (simp add: include_donor_campaign_def demo_donation_def)
  have i: "ident demo_donor = ''d1''" "ident demo_campaign = ''c1''"
    by (simp_all add: demo_donor_def demo_campaign_def)
  have a4: "map donation_donor (recentDonors st) =
           [Some demo_donor, Some demo_donor, Some demo_donor, Some demo_donor, Some demo_donor]"
    unfolding rd ev
    by (simp add: include_donor_campaign_def demo_donation_def demo_db_def find_by_id_def i)
  have a5: "map donation_campaign (recentDonors st) = [None, None, None, Some demo_campaign, None]"
    unfolding rd ev
    by (simp add: include_donor_campaign_def demo_donation_def demo_db_def
        find_by_id_def related_def i)
  have d: "\<exists>st. getDashboardStats demo_db = Response 200 (Stats st) \<and>
         length (recentDonors st) = 5 \<and>
         map (\<lambda>r. ident (donation r)) (recentDonors st) = [''g4'', ''g5'', ''g6'', ''g2'', ''g3''] \<and>
         map (\<lambda>r. createdAt (donation r)) (recentDonors st) = [60, 50, 40, 30, 20] \<and>
         map donation_donor (recentDonors st) =
           [Some demo_donor, Some demo_donor, Some demo_donor, Some demo_donor, Some demo_donor] \<and>
         map donation_campaign (recentDonors st) = [None, None, None, Some demo_campaign, None]"
    by (rule exI [where x = st], intro conjI) (rule g a1 a2 a3 a4 a5)+
  have o: "getDashboardStats overflow_db =
     Response 500 (Error ''Failed to fetch dashboard statistics'' None)"
    by (rule recent_donors_list [of overflow_db, THEN conjunct2, rule_format,
          OF disjI1 [OF overflow_sum]])
  show ?thesis
    by (intro conjI) (rule persisted_demo_db len demo_sums d overflow_sum o)+
qed

text \<open>
  The claim as the specification words it, a list of up to five donations whatever is
  persisted, fails on a state that two create requests reach: with two donations of
  \<open>2 ^ 1023\<close> persisted the dashboard answers 500 and sends no list, where the claim
  promises the two of them.
\<close>

theorem recent_donors_list_counterexample:
  "persisted overflow_db \<and>
   map ident (donations overflow_db) = [''h1'', ''h2''] \<and>
   map (\<lambda>d. d_amount (data d)) (donations overflow_db) = [float8_huge, float8_huge] \<and>
   float8_huge = 2 ^ 1023 \<and>
   getDashboardStats overflow_db =
     Response 500 (Error ''Failed to fetch dashboard statistics'' None)"
proof -
  have a: "map ident (donations overflow_db) = [''h1'', ''h2'']"
    by (simp add: overflow_db_def demo_donation_def)
  have b: "map (\<lambda>d. d_amount (data d)) (donations overflow_db) = [float8_huge, float8_huge]"
    by (simp add: overflow_db_def demo_donation_def)
  show ?thesis
    by (intro conjI) (rule persisted_overflow_db a b float8_huge_def overflow_stats)+
qed

section \<open>The export\<close>

lemma digit_char_digit: "digit_char n \<in> set ''0123456789''"
proof -
  have "n mod 10 < length ''0123456789''" by simp
  then show ?thesis unfolding digit_char_def by (rule nth_mem)
qed

lemma decimal_digits: "set (decimal n) \<subseteq> set ''0123456789''"
proof (induction n rule: decimal.induct)
  case (1 n)
  show ?case
  proof (cases "n < 10")
    case True
    then show ?thesis
      using digit_char_digit [of n] by (subst decimal.simps) simp
  next
    case False
    then show ?thesis
      using 1 digit_char_digit [of n] by (subst decimal.simps) simp
  qed
qed

lemma pad_chars: "set (pad w str) \<subseteq> insert CHR ''0'' (set str)"
  by (auto simp: pad_def)

lemma pad_decimal_no_T: "CHR ''T'' \<notin> set (pad w (decimal n))"
proof
  assume "CHR ''T'' \<in> set (pad w (decimal n))"
  then have "CHR ''T'' \<in> insert CHR ''0'' (set (decimal n))"
    using pad_chars by blast
  then have "CHR ''T'' \<in> set ''0123456789''"
    using decimal_digits [of n] by auto
  then show False by simp
qed

lemma calendar_date_no_T: "CHR ''T'' \<notin> set (calendar_date t)"
  by (simp add: calendar_date_def year_string_def pad_decimal_no_T split: prod.splits)

lemma js_split_first:
  "sep \<notin> set xs \<Longrightarrow> js_split sep (xs @ sep # ys) = xs # js_split sep ys"
  by (induction xs) auto

lemma iso_date_part:
  "js_index (js_split CHR ''T'' (toISOString t)) 0 = Some (calendar_date t)"
proof -
  have "toISOString t = calendar_date t @ CHR ''T'' # (time_of_day t @ ''Z'')"
    by (simp add: toISOString_def)
  then have "js_split CHR ''T'' (toISOString t) =
      calendar_date t # js_split CHR ''T'' (time_of_day t @ ''Z'')"
    using js_split_first [OF calendar_date_no_T] by simp
  then show ?thesis by (simp add: js_index_def)
qed

lemma addRow_loop:
  "foldl (\<lambda>ws e. addRow ws (f e)) ws es =
     ws\<lparr>sheet_rows := sheet_rows ws @ map (\<lambda>e. map (\<lambda>c. map_of (f e) (key c)) (columns ws)) es\<rparr>"
  by (induction es arbitrary: ws) (simp_all add: addRow_def)

lemma export_row_cells:
  "map (\<lambda>c. map_of (export_row e) (key c)) export_columns =
     [Some (Text (calendar_date (createdAt (expense e)))),
      Some (Text (e_description (data (expense e)))),
      Some (Number (e_amount (data (expense e)))),
      Some (Text (e_category (data (expense e)))),
      Some (Text (campaign_label (expense_campaign e)))]"
  by (simp add: export_row_def export_columns_def iso_date_part)

text \<open>The date arithmetic, one binding at a time, and two days of 2024.\<close>

lemma civil_from_days_steps:
  assumes "n + 719468 = z" and "z div 146097 = era" and "z mod 146097 = doe"
    and "(doe - doe div 1460 + doe div 36524 - doe div 146096) div 365 = yoe"
    and "doe - (365 * yoe + yoe div 4 - yoe div 100) = doy"
    and "(5 * doy + 2) div 153 = mp"
    and "doy - (153 * mp + 2) div 5 + 1 = d"
    and "(if mp < 10 then mp + 3 else mp - 9) = m"
    and "yoe + era * 400 = y"
  shows "civil_from_days n = (if m \<le> 2 then y + 1 else y, m, d)"
  unfolding civil_from_days_def Let_def by (simp only: assms)

lemma civil_from_days_19723: "civil_from_days 19723 = (2024, 1, 1)"
  using civil_from_days_steps [of 19723 739191 5 8706 23 306 10 1 1 2023]
  by simp

lemma civil_from_days_19782: "civil_from_days 19782 = (2024, 2, 29)"
  using civil_from_days_steps [of 19782 739250 5 8765 23 365 11 29 2 2023]
  by simp

lemma demo_dates:
  "calendar_date 1704067200000 = ''2024-01-01''" "calendar_date 1709164800123 = ''2024-02-29''"
proof -
  have "(1704067200000::nat) div 86400000 = 19723" "(1709164800123::nat) div 86400000 = 19782"
    by simp_all
  then show "calendar_date 1704067200000 = ''2024-01-01''"
    "calendar_date 1709164800123 = ''2024-02-29''"
    by (simp_all add: calendar_date_def civil_from_days_19723 civil_from_days_19782
        year_string_def pad_def decimal.simps digit_char_def)
qed

lemma export_sheet:
  "exportExpenses s =
     Response 200 (Xlsx ''expenses.xlsx''
       \<lparr>sheet_name = ''Expenses'', columns = export_columns,
        sheet_rows =
          [Some (Text ''Date''), Some (Text ''Description''), Some (Text ''Amount''),
           Some (Text ''Category''), Some (Text ''Campaign'')] #
          map (\<lambda>e.
             [Some (Text (calendar_date (createdAt e))),
              Some (Text (e_description (data e))),
              Some (Number (e_amount (data e))),
              Some (Text (e_category (data e))),
              Some (Text (campaign_label (related (campaigns s) (e_campaignId (data e)))))])
            (expenses s)\<rparr>)"
proof -
  have cols: "columns (set_columns export_columns (addWorksheet ''Expenses'')) = export_columns"
    by (simp add: set_columns_def)
  have sheet: "set_columns export_columns (addWorksheet ''Expenses'') =
      \<lparr>sheet_name = ''Expenses'', columns = export_columns,
       sheet_rows = [[Some (Text ''Date''), Some (Text ''Description''), Some (Text ''Amount''),
        Some (Text ''Category''), Some (Text ''Campaign'')]]\<rparr>"
    by (simp add: set_columns_def addWorksheet_def export_columns_def)
  have inc: "\<And>e. expense (include_campaign s e) = e"
    "\<And>e. expense_campaign (include_campaign s e) = related (campaigns s) (e_campaignId (data e))"
    by (simp_all add: include_campaign_def)
  show ?thesis
    unfolding exportExpenses_def Let_def addRow_loop cols
    by (simp add: export_row_cells inc comp_def sheet)
qed

lemma label_none: "campaign_label (related tbl None) = ''N/A''"
  by (simp add: campaign_label_def related_def)

lemma label_persisted:
  assumes "persisted s" and "e \<in> set (expenses s)" and "e_campaignId (data e) = Some c"
  shows "\<exists>cp \<in> set (campaigns s). ident cp = c \<and>
     (\<forall>x \<in> set (campaigns s). ident x = c \<longrightarrow> x = cp) \<and>
     campaign_label (related (campaigns s) (e_campaignId (data e))) = c_name (data cp)"
proof -
  from persisted_ok [OF assms(1)] have fk: "campaign_fk s"
    and pk: "distinct (map ident (campaigns s))" and nm: "names_ok s"
    by (simp_all add: constraints_ok_def pk_ok_def)
  have "ref_ok (campaigns s) (e_campaignId (data e))"
    using assms(2) fk by (simp add: campaign_fk_def list_all_iff)
  then have "has_id (campaigns s) c"
    by (simp add: ref_ok_def assms(3))
  from find_by_id_has [OF this] obtain cp
    where cp: "find_by_id (campaigns s) c = Some cp" "ident cp = c" "cp \<in> set (campaigns s)"
    by blast
  have u: "\<forall>x \<in> set (campaigns s). ident x = c \<longrightarrow> x = cp"
    using only_row [OF pk cp(3)] cp(2) by simp
  have "c_name (data cp) \<noteq> []"
    using nm cp(3) by (simp add: names_ok_def list_all_iff)
  then have l: "campaign_label (related (campaigns s) (e_campaignId (data e))) = c_name (data cp)"
    by (simp add: assms(3) related_def cp(1) campaign_label_def)
  show ?thesis
    by (rule bexI [of _ cp], intro conjI) (rule cp(2) u l cp(3))+
qed

text \<open>
  Claim C8. Whatever the persisted state, the export is a workbook named
  \<open>expenses.xlsx\<close> whose sheet has the columns Date, Description, Amount, Category and
  Campaign, a header row, and below it exactly one row for each persisted expense, none
  left out. In the row of an expense the Date cell is the calendar date \<open>YYYY-MM-DD\<close>
  (UTC) of its creation timestamp, Description, Amount and Category are its own, and the
  Campaign cell is \<open>N/A\<close> when it has no campaign and otherwise, in a state that the
  requests and the cascading deletes can reach, the name of the one campaign that its
  \<open>campaignId\<close> names.
\<close>

theorem export_rows:
  "\<exists>ws. exportExpenses s = Response 200 (Xlsx ''expenses.xlsx'' ws) \<and>
     map header (columns ws) = [''Date'', ''Description'', ''Amount'', ''Category'', ''Campaign''] \<and>
     length (sheet_rows ws) = Suc (length (expenses s)) \<and>
     sheet_rows ws ! 0 =
       [Some (Text ''Date''), Some (Text ''Description''), Some (Text ''Amount''),
        Some (Text ''Category''), Some (Text ''Campaign'')] \<and>
     (\<forall>i < length (expenses s).
        \<exists>label.
          sheet_rows ws ! Suc i =
            [Some (Text (calendar_date (createdAt (expenses s ! i)))),
             Some (Text (e_description (data (expenses s ! i)))),
             Some (Number (e_amount (data (expenses s ! i)))),
             Some (Text (e_category (data (expenses s ! i)))),
             Some (Text label)] \<and>
          (e_campaignId (data (expenses s ! i)) = None \<longrightarrow> label = ''N/A'') \<and>
          (\<forall>c. persisted s \<and> e_campaignId (data (expenses s ! i)) = Some c \<longrightarrow>
             (\<exists>cp \<in> set (campaigns s). ident cp = c \<and>
                (\<forall>x \<in> set (campaigns s). ident x = c \<longrightarrow> x = cp) \<and>
                label = c_name (data cp))))"
proof -
  let ?label = "\<lambda>e. campaign_label (related (campaigns s) (e_campaignId (data e)))"
  let ?rows = "[Some (Text ''Date''), Some (Text ''Description''), Some (Text ''Amount''),
           Some (Text ''Category''), Some (Text ''Campaign'')] #
          map (\<lambda>e.
             [Some (Text (calendar_date (createdAt e))),
              Some (Text (e_description (data e))),
              Some (Number (e_amount (data e))),
              Some (Text (e_category (data e))),
              Some (Text (?label e))])
            (expenses s)"
  let ?ws = "\<lparr>sheet_name = ''Expenses'', columns = export_columns, sheet_rows = ?rows\<rparr>"
  have hdr: "map header (columns ?ws) =
      [''Date'', ''Description'', ''Amount'', ''Category'', ''Campaign'']"
    by (simp add: export_columns_def)
  have len: "length (sheet_rows ?ws) = Suc (length (expenses s))"
    by simp
  have first: "sheet_rows ?ws ! 0 =
       [Some (Text ''Date''), Some (Text ''Description''), Some (Text ''Amount''),
        Some (Text ''Category''), Some (Text ''Campaign'')]"
    by simp
  have rows: "\<forall>i < length (expenses s).
        \<exists>label.
          sheet_rows ?ws ! Suc i =
            [Some (Text (calendar_date (createdAt (expenses s ! i)))),
             Some (Text (e_description (data (expenses s ! i)))),
             Some (Number (e_amount (data (expenses s ! i)))),
             Some (Text (e_category (data (expenses s ! i)))),
             Some (Text label)] \<and>
          (e_campaignId (data (expenses s ! i)) = None \<longrightarrow> label = ''N/A'') \<and>
          (\<forall>c. persisted s \<and> e_campaignId (data (expenses s ! i)) = Some c \<longrightarrow>
             (\<exists>cp \<in> set (campaigns s). ident cp = c \<and>
                (\<forall>x \<in> set (campaigns s). ident x = c \<longrightarrow> x = cp) \<and>
                label = c_name (data cp)))"
  proof (intro allI impI)
    fix i assume i: "i < length (expenses s)"
    let ?e = "expenses s ! i"
    have mem: "?e \<in> set (expenses s)" using i by simp
    have r: "sheet_rows ?ws ! Suc i =
            [Some (Text (calendar_date (createdAt ?e))),
             Some (Text (e_description (data ?e))),
             Some (Number (e_amount (data ?e))),
             Some (Text (e_category (data ?e))),
             Some (Text (?label ?e))]"
      using i by simp
    have n: "e_campaignId (data ?e) = None \<longrightarrow> ?label ?e = ''N/A''"
      by (simp add: label_none)
    have p: "\<forall>c. persisted s \<and> e_campaignId (data ?e) = Some c \<longrightarrow>
             (\<exists>cp \<in> set (campaigns s). ident cp = c \<and>
                (\<forall>x \<in> set (campaigns s). ident x = c \<longrightarrow> x = cp) \<and>
                ?label ?e = c_name (data cp))"
      using label_persisted [OF _ mem] by blast
    show "\<exists>label.
          sheet_rows ?ws ! Suc i =
            [Some (Text (calendar_date (createdAt ?e))),
             Some (Text (e_description (data ?e))),
             Some (Number (e_amount (data ?e))),
             Some (Text (e_category (data ?e))),
             Some (Text label)] \<and>
          (e_campaignId (data ?e) = None \<longrightarrow> label = ''N/A'') \<and>
          (\<forall>c. persisted s \<and> e_campaignId (data ?e) = Some c \<longrightarrow>
             (\<exists>cp \<in> set (campaigns s). ident cp = c \<and>
                (\<forall>x \<in> set (campaigns s). ident x = c \<longrightarrow> x = cp) \<and>
                label = c_name (data cp)))"
      by (rule exI [of _ "?label ?e"], intro conjI) (rule r n p)+
  qed
  show ?thesis
    by (rule exI [of _ ?ws], intro conjI) (rule export_sheet hdr len first rows)+
qed

theorem export_rows_witness:
  "persisted demo_db \<and>
   map (\<lambda>e. (createdAt e, e_description (data e), e_amount (data e), e_category (data e),
              e_campaignId (data e))) (expenses demo_db) =
     [(1704067200000, ''Rice'', 500, ''Food'', None),
      (1709164800123, ''Books'', 20, ''Food'', Some ''c1'')] \<and>
   map (\<lambda>c. (ident c, c_name (data c))) (campaigns demo_db) = [(''c1'', ''School'')] \<and>
   (\<exists>ws. exportExpenses demo_db = Response 200 (Xlsx ''expenses.xlsx'' ws) \<and>
      map header (columns ws) = [''Date'', ''Description'', ''Amount'', ''Category'', ''Campaign''] \<and>
      sheet_rows ws =
        [[Some (Text ''Date''), Some (Text ''Description''), Some (Text ''Amount''),
          Some (Text ''Category''), Some (Text ''Campaign'')],
         [Some (Text ''2024-01-01''), Some (Text ''Rice''), Some (Number 500),
          Some (Text ''Food''), Some (Text ''N/A'')],
         [Some (Text ''2024-02-29''), Some (Text ''Books''), Some (Number 20),
          Some (Text ''Food''), Some (Text ''School'')]])"
proof -
  have ex: "map (\<lambda>e. (createdAt e, e_description (data e), e_amount (data e), e_category (data e),
              e_campaignId (data e))) (expenses demo_db) =
     [(1704067200000, ''Rice'', 500, ''Food'', None),
      (1709164800123, ''Books'', 20, ''Food'', Some ''c1'')]"
    by (simp add: demo_db_def demo_expense_def)
  have cs: "map (\<lambda>c. (ident c, c_name (data c))) (campaigns demo_db) = [(''c1'', ''School'')]"
    by (simp add: demo_db_def demo_campaign_def)
  have e0: "createdAt (expenses demo_db ! 0) = 1704067200000"
    "e_description (data (expenses demo_db ! 0)) = ''Rice''"
    "e_amount (data (expenses demo_db ! 0)) = 500"
    "e_category (data (expenses demo_db ! 0)) = ''Food''"
    "e_campaignId (data (expenses demo_db ! 0)) = None"
    by (simp_all add: demo_db_def demo_expense_def)
  have e1: "createdAt (expenses demo_db ! Suc 0) = 1709164800123"
    "e_description (data (expenses demo_db ! Suc 0)) = ''Books''"
    "e_amount (data (expenses demo_db ! Suc 0)) = 20"
    "e_category (data (expenses demo_db ! Suc 0)) = ''Food''"
    "e_campaignId (data (expenses demo_db ! Suc 0)) = Some ''c1''"
    by (simp_all add: demo_db_def demo_expense_def)
  have n: "length (expenses demo_db) = 2" "0 < length (expenses demo_db)"
    "Suc 0 < length (expenses demo_db)"
    by (simp_all add: demo_db_def)
  have only: "set (campaigns demo_db) = {demo_campaign}" "c_name (data demo_campaign) = ''School''"
    by (simp_all add: demo_db_def demo_campaign_def)
  from export_rows [of demo_db] obtain ws
    where g: "exportExpenses demo_db = Response 200 (Xlsx ''expenses.xlsx'' ws)"
      and h: "map header (columns ws) =
        [''Date'', ''Description'', ''Amount'', ''Category'', ''Campaign'']"
      and l: "length (sheet_rows ws) = Suc (length (expenses demo_db))"
      and r0: "sheet_rows ws ! 0 =
       [Some (Text ''Date''), Some (Text ''Description''), Some (Text ''Amount''),
        Some (Text ''Category''), Some (Text ''Campaign'')]"
      and rs: "\<forall>i < length (expenses demo_db).
        \<exists>label.
          sheet_rows ws ! Suc i =
            [Some (Text (calendar_date (createdAt (expenses demo_db ! i)))),
             Some (Text (e_description (data (expenses demo_db ! i)))),
             Some (Number (e_amount (data (expenses demo_db ! i)))),
             Some (Text (e_category (data (expenses demo_db ! i)))),
             Some (Text label)] \<and>
          (e_campaignId (data (expenses demo_db ! i)) = None \<longrightarrow> label = ''N/A'') \<and>
          (\<forall>c. persisted demo_db \<and> e_campaignId (data (expenses demo_db ! i)) = Some c \<longrightarrow>
             (\<exists>cp \<in> set (campaigns demo_db). ident cp = c \<and>
                (\<forall>x \<in> set (campaigns demo_db). ident x = c \<longrightarrow> x = cp) \<and>
                label = c_name (data cp)))"
    by (elim exE conjE)
  from rs [rule_format, OF n(2)] have r1: "sheet_rows ws ! Suc 0 =
      [Some (Text ''2024-01-01''), Some (Text ''Rice''), Some (Number 500),
          Some (Text ''Food''), Some (Text ''N/A'')]"
    unfolding e0 demo_dates by (elim exE conjE) simp
  from rs [rule_format, OF n(3)] persisted_demo_db have r2: "sheet_rows ws ! Suc (Suc 0) =
      [Some (Text ''2024-02-29''), Some (Text ''Books''), Some (Number 20),
          Some (Text ''Food''), Some (Text ''School'')]"
    unfolding e1 demo_dates only(1) by (elim exE conjE) (simp add: only(2))
  have "length (sheet_rows ws) = 3" using l n(1) by simp
  then have "sheet_rows ws = [sheet_rows ws ! 0, sheet_rows ws ! Suc 0, sheet_rows ws ! Suc (Suc 0)]"
    by (cases "sheet_rows ws"; simp) (rename_tac a as, case_tac as; simp; rename_tac b bs,
        case_tac bs; simp)
  then have rows: "sheet_rows ws =
        [[Some (Text ''Date''), Some (Text ''Description''), Some (Text ''Amount''),
          Some (Text ''Category''), Some (Text ''Campaign'')],
         [Some (Text ''2024-01-01''), Some (Text ''Rice''), Some (Number 500),
          Some (Text ''Food''), Some (Text ''N/A'')],
         [Some (Text ''2024-02-29''), Some (Text ''Books''), Some (Number 20),
          Some (Text ''Food''), Some (Text ''School'')]]"
    by (simp only: r0 r1 r2)
  have w: "\<exists>ws. exportExpenses demo_db = Response 200 (Xlsx ''expenses.xlsx'' ws) \<and>
      map header (columns ws) = [''Date'', ''Description'', ''Amount'', ''Category'', ''Campaign''] \<and>
      sheet_rows ws =
        [[Some (Text ''Date''), Some (Text ''Description''), Some (Text ''Amount''),
          Some (Text ''Category''), Some (Text ''Campaign'')],
         [Some (Text ''2024-01-01''), Some (Text ''Rice''), Some (Number 500),
          Some (Text ''Food''), Some (Text ''N/A'')],
         [Some (Text ''2024-02-29''), Some (Text ''Books''), Some (Number 20),
          Some (Text ''Food''), Some (Text ''School'')]]"
    by (rule exI [of _ ws], intro conjI) (rule g h rows)+
  show ?thesis
    by (intro conjI) (rule persisted_demo_db ex cs w)+
qed

section \<open>Validation\<close>

lemma bad_amount:
  "a \<le> 0 \<Longrightarrow> z_number_positive p (Some (JNum a)) = Inl [Issue ''too_small'' p]"
  by (simp add: z_number_positive_def)

lemma expenseSchema_bad_amount:
  assumes "a \<le> 0" and "map_of kv ''amount'' = Some (JNum a)"
  shows "\<exists>es. expenseSchema (JObj kv) = Inl es \<and> Issue ''too_small'' ''amount'' \<in> set es"
  using assms
  by (auto simp: expenseSchema_def Let_def bad_amount issues_of_def split: sum.splits)

lemma donationSchema_bad_amount:
  assumes "a \<le> 0" and "map_of kv ''amount'' = Some (JNum a)"
  shows "\<exists>es. donationSchema (JObj kv) = Inl es \<and> Issue ''too_small'' ''amount'' \<in> set es"
  using assms
  by (auto simp: donationSchema_def Let_def bad_amount issues_of_def split: sum.splits)

lemma campaignSchema_bad_target:
  assumes "a \<le> 0" and "map_of kv ''targetAmount'' = Some (JNum a)"
  shows "\<exists>es. campaignSchema (JObj kv) = Inl es \<and> Issue ''too_small'' ''targetAmount'' \<in> set es"
  using assms
  by (auto simp: campaignSchema_def Let_def bad_amount z_optional_def issues_of_def
      split: sum.splits)

text \<open>
  Claim C4. For the entities that have an amount (an expense and a donation under
  \<open>amount\<close>, a campaign under \<open>targetAmount\<close>, which is why a donor and a beneficiary do
  not appear), a create whose amount is a number less than or equal to zero is answered
  with status 400 and the list of the violated fields, the amount among them, and it
  leaves the persisted state as it was. This holds for the handlers of
  \<open>controllers/index.js\<close> and for those of \<open>index.js\<close>.
\<close>

theorem nonpositive_amount_rejected:
  assumes "a \<le> 0"
  shows "(map_of kv ''amount'' = Some (JNum a) \<longrightarrow>
       (\<exists>es. createExpense ev (JObj kv) s =
               (Response 400 (Error ''Invalid expense data'' (Some es)), s) \<and>
             app_post_expenses ev (JObj kv) s =
               (Response 400 (Error ''Invalid expense data'' (Some es)), s) \<and>
             Issue ''too_small'' ''amount'' \<in> set es) \<and>
       (\<exists>es. createDonation ev (JObj kv) s =
               (Response 400 (Error ''Invalid donation data'' (Some es)), s) \<and>
             app_post_donations ev (JObj kv) s =
               (Response 400 (Error ''Invalid donation data'' (Some es)), s) \<and>
             Issue ''too_small'' ''amount'' \<in> set es)) \<and>
     (map_of kv ''targetAmount'' = Some (JNum a) \<longrightarrow>
       (\<exists>es. createCampaign ev (JObj kv) s =
               (Response 400 (Error ''Invalid campaign data'' (Some es)), s) \<and>
             app_post_campaigns ev (JObj kv) s =
               (Response 400 (Error ''Invalid campaign data'' (Some es)), s) \<and>
             Issue ''too_small'' ''targetAmount'' \<in> set es))"
proof (intro conjI impI)
  assume m: "map_of kv ''amount'' = Some (JNum a)"
  from expenseSchema_bad_amount [OF assms m]
  show "\<exists>es. createExpense ev (JObj kv) s =
               (Response 400 (Error ''Invalid expense data'' (Some es)), s) \<and>
             app_post_expenses ev (JObj kv) s =
               (Response 400 (Error ''Invalid expense data'' (Some es)), s) \<and>
             Issue ''too_small'' ''amount'' \<in> set es"
    by (auto simp: createExpense_def app_post_expenses_def)
  from donationSchema_bad_amount [OF assms m]
  show "\<exists>es. createDonation ev (JObj kv) s =
               (Response 400 (Error ''Invalid donation data'' (Some es)), s) \<and>
             app_post_donations ev (JObj kv) s =
               (Response 400 (Error ''Invalid donation data'' (Some es)), s) \<and>
             Issue ''too_small'' ''amount'' \<in> set es"
    by (auto simp: createDonation_def app_post_donations_def)
next
  assume m: "map_of kv ''targetAmount'' = Some (JNum a)"
  from campaignSchema_bad_target [OF assms m]
  show "\<exists>es. createCampaign ev (JObj kv) s =
               (Response 400 (Error ''Invalid campaign data'' (Some es)), s) \<and>
             app_post_campaigns ev (JObj kv) s =
               (Response 400 (Error ''Invalid campaign data'' (Some es)), s) \<and>
             Issue ''too_small'' ''targetAmount'' \<in> set es"
    by (auto simp: createCampaign_def app_post_campaigns_def)
qed

theorem nonpositive_amount_rejected_witness:
  "(0::rat) \<le> 0 \<and>
   map_of [(''description'', JStr ''Rice''), (''amount'', JNum 0), (''category'', JStr ''Food'')]
     ''amount'' = Some (JNum 0) \<and>
   map_of [(''name'', JStr ''School''), (''targetAmount'', JNum 0)] ''targetAmount'' = Some (JNum 0) \<and>
   createExpense demo_env
     (JObj [(''description'', JStr ''Rice''), (''amount'', JNum 0), (''category'', JStr ''Food'')])
     demo_db =
     (Response 400 (Error ''Invalid expense data'' (Some [Issue ''too_small'' ''amount''])), demo_db) \<and>
   snd (app_post_expenses demo_env
     (JObj [(''description'', JStr ''Rice''), (''amount'', JNum 0), (''category'', JStr ''Food'')])
     demo_db) = demo_db \<and>
   snd (createDonation demo_env
     (JObj [(''description'', JStr ''Rice''), (''amount'', JNum 0), (''category'', JStr ''Food'')])
     demo_db) = demo_db \<and>
   status (fst (app_post_campaigns demo_env
     (JObj [(''name'', JStr ''School''), (''targetAmount'', JNum 0)]) demo_db)) = 400"
proof -
  let ?kv = "[(''description'', JStr ''Rice''), (''amount'', JNum 0), (''category'', JStr ''Food'')]"
  let ?kc = "[(''name'', JStr ''School''), (''targetAmount'', JNum 0)]"
  have h: "(0::rat) \<le> 0" by simp
  have m: "map_of ?kv ''amount'' = Some (JNum 0)" by simp
  have mc: "map_of ?kc ''targetAmount'' = Some (JNum 0)" by simp
  have e: "expenseSchema (JObj ?kv) = Inl [Issue ''too_small'' ''amount'']"
    by (simp add: expenseSchema_def z_string_min1_def z_string_def z_number_positive_def
        z_optional_def issues_of_def)
  note t = nonpositive_amount_rejected [OF h, of ?kv demo_env demo_db]
  note tc = nonpositive_amount_rejected [OF h, of ?kc demo_env demo_db]
  have "createExpense demo_env (JObj ?kv) demo_db =
     (Response 400 (Error ''Invalid expense data'' (Some [Issue ''too_small'' ''amount''])), demo_db)"
    by (simp add: createExpense_def e)
  moreover have "snd (app_post_expenses demo_env (JObj ?kv) demo_db) = demo_db"
    using t m by auto
  moreover have "snd (createDonation demo_env (JObj ?kv) demo_db) = demo_db"
    using t m by auto
  moreover have "status (fst (app_post_campaigns demo_env (JObj ?kc) demo_db)) = 400"
    using tc mc by auto
  ultimately show ?thesis using h m mc by blast
qed



section \<open>Failures of the store\<close>

lemma ghost_donation_valid:
  "donationSchema ghost_donation =
     Inr \<lparr>d_amount = 10, d_donorId = ''ghost'', d_campaignId = None\<rparr>"
  by (simp add: ghost_donation_def donationSchema_def z_number_positive_def z_string_def
      z_optional_def)

text \<open>
  Claim C2 is not what \<open>controllers/index.js\<close> does. Its creating handlers answer every
  error of their \<open>try\<close> block with status 400, whether it comes from the schema or from
  the store, while the handlers of \<open>index.js\<close> tell the two apart. The statement below
  evaluates both on a donation that satisfies the schema and names the donor \<open>ghost\<close>,
  in a state without donors: the store refuses the row (P2003), \<open>createDonation\<close>
  answers 400 and the handler of \<open>index.js\<close> answers 500. Neither stores anything.
\<close>

theorem createDonation_unknown_donor:
  "donationSchema ghost_donation =
     Inr \<lparr>d_amount = 10, d_donorId = ''ghost'', d_campaignId = None\<rparr> \<and>
   prisma_donation_create demo_env
     \<lparr>d_amount = 10, d_donorId = ''ghost'', d_campaignId = None\<rparr> empty_db = Inl P2003 \<and>
   createDonation demo_env ghost_donation empty_db =
     (Response 400 (Error ''Invalid donation data'' None), empty_db) \<and>
   app_post_donations demo_env ghost_donation empty_db =
     (Response 500 (Error ''Failed to create donation'' None), empty_db)"
proof -
  have p: "prisma_donation_create demo_env
     \<lparr>d_amount = 10, d_donorId = ''ghost'', d_campaignId = None\<rparr> empty_db = Inl P2003"
    by (simp add: prisma_donation_create_def empty_db_def has_id_def)
  show ?thesis
    by (simp add: createDonation_def app_post_donations_def ghost_donation_valid p)
qed

section \<open>Routing\<close>

lemma no_route_for_other_methods:
  assumes "m \<noteq> GET" and "m \<noteq> POST"
  shows "find_route app_routes m p = None" and "find_route router_routes m p = None"
  using assms by (simp_all add: find_route_def app_routes_def router_routes_def)

text \<open>
  Claim C1 is not what the server does. The client calls \<open>PUT /expenses/:id\<close> and
  \<open>DELETE /expenses/:id\<close>, but neither route table has a route for the method PUT or
  for the method DELETE: whatever the path, the credentials, the body and the state,
  such a request is answered by the framework with 404 and the state is left as it was,
  also when the path names an expense that exists, as \<open>e1\<close> does in the sample state.
\<close>

theorem expense_update_delete_not_routed:
  "find_route app_routes PUT p = None \<and> find_route app_routes DELETE p = None \<and>
   find_route router_routes PUT p = None \<and> find_route router_routes DELETE p = None \<and>
   app_request dp ev \<lparr>req_method = PUT, req_path = p, authorization = a, req_body = b\<rparr> s =
     (Response 404 NoRoute, s) \<and>
   app_request dp ev \<lparr>req_method = DELETE, req_path = p, authorization = a, req_body = b\<rparr> s =
     (Response 404 NoRoute, s) \<and>
   router_request mw dp ev \<lparr>req_method = PUT, req_path = p, authorization = a, req_body = b\<rparr> s =
     (Response 404 NoRoute, s) \<and>
   router_request mw dp ev \<lparr>req_method = DELETE, req_path = p, authorization = a, req_body = b\<rparr> s =
     (Response 404 NoRoute, s) \<and>
   has_id (expenses demo_db) ''e1'' \<and>
   app_request dp ev
     \<lparr>req_method = PUT, req_path = ''/api/expenses/e1'', authorization = a, req_body = b\<rparr> demo_db =
     (Response 404 NoRoute, demo_db)"
proof -
  have r: "find_route app_routes PUT q = None" "find_route app_routes DELETE q = None"
    "find_route router_routes PUT q = None" "find_route router_routes DELETE q = None" for q
    by (simp_all add: no_route_for_other_methods)
  have "has_id (expenses demo_db) ''e1''"
    by (simp add: has_id_def demo_db_def demo_expense_def)
  then show ?thesis
    by (simp add: app_request_def router_request_def serve_def r)
qed

lemma non_login_routes_protected:
  "find_route app_routes m p = Some (protected, ep) \<Longrightarrow> protected = (ep \<noteq> AuthLogin)"
  by (auto simp: find_route_def app_routes_def split: if_splits)

lemma authenticateToken_missing:
  "authenticateToken dp t None = Responded (Response 401 (Error ''Access token required'' None))"
  by (simp add: authenticateToken_def header_token_def)

lemma authenticateToken_invalid:
  assumes "js_index (js_split CHR '' '' h) 1 = Some token" and "token \<noteq> []"
    and "jwt_verify dp token (JWT_SECRET dp) t = None"
  shows "authenticateToken dp t (Some h) = Responded (Response 403 (Error ''Invalid token'' None))"
proof -
  have "h \<noteq> []" using assms(1) by (auto simp: js_index_def)
  then show ?thesis using assms by (simp add: authenticateToken_def header_token_def)
qed

text \<open>
  Claim C10. Every route of the server but the login has the middleware before its
  handler. For a request to such a route: without an \<open>Authorization\<close> header the
  response is 401; with a header whose second space-separated segment is a non-empty
  string that the token library does not verify (whatever the first segment is) the
  response is 403. In both cases the response is the middleware's whatever the handler
  of the route is, so the handler is not run, and the persisted state is unchanged.
\<close>

theorem protected_route_rejects:
  assumes "find_route app_routes (req_method req) (req_path req) = Some (protected, ep)"
    and "ep \<noteq> AuthLogin"
  shows "protected \<and>
    (authorization req = None \<longrightarrow>
       authenticateToken dp (now ev) (authorization req) =
         Responded (Response 401 (Error ''Access token required'' None)) \<and>
       serve app_routes h authenticateToken dp ev req s =
         (Response 401 (Error ''Access token required'' None), s) \<and>
       app_request dp ev req s = (Response 401 (Error ''Access token required'' None), s)) \<and>
    (\<forall>hd token.
       authorization req = Some hd \<and> js_index (js_split CHR '' '' hd) 1 = Some token \<and>
       token \<noteq> [] \<and> jwt_verify dp token (JWT_SECRET dp) (now ev) = None \<longrightarrow>
       authenticateToken dp (now ev) (authorization req) =
         Responded (Response 403 (Error ''Invalid token'' None)) \<and>
       serve app_routes h authenticateToken dp ev req s =
         (Response 403 (Error ''Invalid token'' None), s) \<and>
       app_request dp ev req s = (Response 403 (Error ''Invalid token'' None), s))"
proof -
  have p: "protected"
    using non_login_routes_protected [OF assms(1)] assms(2) by simp
  have served: "serve app_routes g authenticateToken dp ev req s = (r, s)"
    if "authenticateToken dp (now ev) (authorization req) = Responded r" for g r
    using that assms(1) p by (simp add: serve_def)
  show ?thesis
  proof (intro conjI allI impI)
    show "protected" by (rule p)
  next
    assume a: "authorization req = None"
    then show m: "authenticateToken dp (now ev) (authorization req) =
         Responded (Response 401 (Error ''Access token required'' None))"
      by (simp add: authenticateToken_missing)
    show "serve app_routes h authenticateToken dp ev req s =
         (Response 401 (Error ''Access token required'' None), s)"
      by (rule served [OF m])
    show "app_request dp ev req s = (Response 401 (Error ''Access token required'' None), s)"
      unfolding app_request_def by (rule served [OF m])
  next
    fix hd token
    assume a: "authorization req = Some hd \<and> js_index (js_split CHR '' '' hd) 1 = Some token \<and>
       token \<noteq> [] \<and> jwt_verify dp token (JWT_SECRET dp) (now ev) = None"
    then show m: "authenticateToken dp (now ev) (authorization req) =
         Responded (Response 403 (Error ''Invalid token'' None))"
      by (simp add: authenticateToken_invalid)
    show "serve app_routes h authenticateToken dp ev req s =
         (Response 403 (Error ''Invalid token'' None), s)"
      by (rule served [OF m])
    show "app_request dp ev req s = (Response 403 (Error ''Invalid token'' None), s)"
      unfolding app_request_def by (rule served [OF m])
  qed
qed

theorem protected_route_rejects_witness:
  "find_route app_routes GET ''/api/expenses'' = Some (True, ExpensesList) \<and>
   js_index (js_split CHR '' '' ''Basic forged'') 1 = Some ''forged'' \<and>
   jwt_verify demo_deps ''forged'' (JWT_SECRET demo_deps) (now demo_env) = None \<and>
   app_request demo_deps demo_env
     \<lparr>req_method = GET, req_path = ''/api/expenses'', authorization = None, req_body = JNull\<rparr>
     demo_db = (Response 401 (Error ''Access token required'' None), demo_db) \<and>
   app_request demo_deps demo_env
     \<lparr>req_method = GET, req_path = ''/api/expenses'', authorization = Some ''Basic forged'',
      req_body = JNull\<rparr>
     demo_db = (Response 403 (Error ''Invalid token'' None), demo_db)"
proof -
  let ?r1 = "\<lparr>req_method = GET, req_path = ''/api/expenses'', authorization = None,
      req_body = JNull\<rparr>"
  let ?r2 = "\<lparr>req_method = GET, req_path = ''/api/expenses'',
      authorization = Some ''Basic forged'', req_body = JNull\<rparr>"
  have f: "find_route app_routes GET ''/api/expenses'' = Some (True, ExpensesList)"
    by (simp add: find_route_def app_routes_def path_matches_def lower_char_def)
  have j: "js_index (js_split CHR '' '' ''Basic forged'') 1 = Some ''forged''"
    by (simp add: js_index_def)
  have v: "jwt_verify demo_deps ''forged'' (JWT_SECRET demo_deps) (now demo_env) = None"
    by (simp add: demo_deps_def demo_verify_def)
  have f1: "find_route app_routes (req_method ?r1) (req_path ?r1) = Some (True, ExpensesList)"
    using f by simp
  have f2: "find_route app_routes (req_method ?r2) (req_path ?r2) = Some (True, ExpensesList)"
    using f by simp
  have "app_request demo_deps demo_env ?r1 demo_db =
      (Response 401 (Error ''Access token required'' None), demo_db)"
    using protected_route_rejects [OF f1, of demo_deps demo_env app_handler demo_db] by simp
  moreover have "app_request demo_deps demo_env ?r2 demo_db =
      (Response 403 (Error ''Invalid token'' None), demo_db)"
    using protected_route_rejects [OF f2, of demo_deps demo_env app_handler demo_db] j v
    by simp
  ultimately show ?thesis using f j v by blast
qed




end
